theory Spec2Isabelle
  imports Complex_Main "HOL-Library.Word" "HOL-Library.Signed_Division"
begin

section \<open>The on-screen-display message queue\<close>

text \<open>
  Source: \<^verbatim>\<open>Source/Core/VideoCommon/OnScreenDisplay.cpp\<close>, namespace \<^verbatim>\<open>OSD\<close>.

  Times, durations and colours are \<^verbatim>\<open>u32\<close> in the source: 32-bit words whose
  addition and subtraction wrap around. The clock \<^verbatim>\<open>Common::Timer::GetTimeMs()\<close> is read
  once per operation; its reading is the argument \<open>now\<close> of every operation below.
\<close>

type_synonym u32 = "32 word"

text \<open>\<^verbatim>\<open>struct Message { std::string text; u32 timestamp; u32 color; }\<close>\<close>

record Message =
  "text" :: string
  timestamp :: u32
  color :: u32

text \<open>
  \<^verbatim>\<open>static std::multimap<MessageType, Message> s_messages\<close>: the entries in key order,
  entries of one key in the order of their insertion. The enumeration \<^verbatim>\<open>MessageType\<close>
  is declared in \<^verbatim>\<open>OnScreenDisplay.h\<close>, which is not among the sources; the key type is
  the parameter \<open>'k\<close>, any linearly ordered type, and the enumerator
  \<^verbatim>\<open>MessageType::Typeless\<close> is the parameter \<open>Typeless\<close> of \<open>AddMessage\<close>.
\<close>

type_synonym 'k multimap = "('k \<times> Message) list"

text \<open>\<^verbatim>\<open>multimap::emplace\<close>: the new entry goes after every entry whose key is not greater.\<close>

fun emplace :: "'k::linorder \<Rightarrow> Message \<Rightarrow> 'k multimap \<Rightarrow> 'k multimap" where
  "emplace k m [] = [(k, m)]"
| "emplace k m (e # es) = (if fst e \<le> k then e # emplace k m es else (k, m) # e # es)"

text \<open>\<^verbatim>\<open>multimap::erase(key)\<close>: every entry of that key is removed.\<close>

definition erase :: "'k \<Rightarrow> 'k multimap \<Rightarrow> 'k multimap" where
  "erase k s_messages = filter (\<lambda>e. fst e \<noteq> k) s_messages"

text \<open>
  \<^verbatim>\<open>s_messages.erase(type);\<close>
  \<^verbatim>\<open>s_messages.emplace(type, Message(std::move(message), Common::Timer::GetTimeMs() + ms, rgba));\<close>
\<close>

definition AddTypedMessage ::
  "u32 \<Rightarrow> 'k::linorder \<Rightarrow> string \<Rightarrow> u32 \<Rightarrow> u32 \<Rightarrow> 'k multimap \<Rightarrow> 'k multimap" where
  "AddTypedMessage now type message ms rgba s_messages =
     emplace type \<lparr>text = message, timestamp = now + ms, color = rgba\<rparr> (erase type s_messages)"

text \<open>
  \<^verbatim>\<open>s_messages.emplace(MessageType::Typeless,\<close>
  \<^verbatim>\<open>                   Message(std::move(message), Common::Timer::GetTimeMs() + ms, rgba));\<close>
\<close>

definition AddMessage ::
  "'k::linorder \<Rightarrow> u32 \<Rightarrow> string \<Rightarrow> u32 \<Rightarrow> u32 \<Rightarrow> 'k multimap \<Rightarrow> 'k multimap" where
  "AddMessage Typeless now message ms rgba s_messages =
     emplace Typeless \<lparr>text = message, timestamp = now + ms, color = rgba\<rparr> s_messages"

text \<open>\<^verbatim>\<open>s_messages.clear();\<close>\<close>

definition ClearMessages :: "'k multimap \<Rightarrow> 'k multimap" where
  "ClearMessages s_messages = []"

text \<open>Decimal digits of a natural number, as \<^verbatim>\<open>fmt::format("{}")\<close> and \<^verbatim>\<open>%d\<close> print them.\<close>

definition digit :: "nat \<Rightarrow> char" where
  "digit d = ''0123456789'' ! d"

fun decimal :: "nat \<Rightarrow> string" where
  "decimal n = (if n < 10 then [digit n] else decimal (n div 10) @ [digit (n mod 10)])"

declare decimal.simps [simp del]

text \<open>
  One call of \<^verbatim>\<open>DrawMessage\<close>, as the record of what it hands to the drawing backend:
  the window name \<^verbatim>\<open>fmt::format("osd_{}", index)\<close>, the message, and the opacity
  \<^verbatim>\<open>std::min(1.0f, std::max(0.0f, time_left / 1024.0f))\<close>.

  The opacity is a rational number here. The source computes it in single-precision
  floating point, and on this expression the two agree: for \<open>0 < time_left < 1024\<close> the
  quotient by \<open>1024 = 2\<^sup>1\<^sup>0\<close> of an integer below \<open>2\<^sup>1\<^sup>0\<close> is a float exactly, and for
  \<open>1024 \<le> time_left\<close> the rounded quotient is at least \<open>1\<close> and the result is \<open>1\<close>.
  The position of the window and the height the backend measures for it are layout of the
  backend and are not part of the record; the colour stays the packed \<^verbatim>\<open>u32\<close> of the
  message.
\<close>

record draw_call =
  window_name :: string
  drawn :: Message
  alpha :: rat

definition DrawMessage :: "nat \<Rightarrow> Message \<Rightarrow> int \<Rightarrow> draw_call" where
  "DrawMessage index msg time_left =
     \<lparr>window_name = ''osd_'' @ decimal index, drawn = msg,
      alpha = min 1 (max 0 (of_int time_left / 1024))\<rparr>"

text \<open>
  The loop of \<^verbatim>\<open>DrawMessages\<close> over \<^verbatim>\<open>s_messages\<close>, from \<^verbatim>\<open>begin()\<close> to \<^verbatim>\<open>end()\<close>:
  \<^verbatim>\<open>time_left = static_cast<int>(msg.timestamp - now)\<close> is the \<^verbatim>\<open>u32\<close> difference read as
  a signed 32-bit integer; an entry with \<^verbatim>\<open>time_left <= 0\<close> is erased, any other entry is
  kept and, when \<^verbatim>\<open>draw_messages\<close> is set, drawn with the next index. The result is the
  queue after the loop and the draw calls in the order they are made.
\<close>

fun DrawMessages_loop ::
  "bool \<Rightarrow> u32 \<Rightarrow> nat \<Rightarrow> 'k multimap \<Rightarrow> 'k multimap \<times> draw_call list" where
  "DrawMessages_loop draw_messages now index [] = ([], [])"
| "DrawMessages_loop draw_messages now index (e # es) =
     (let msg = snd e; time_left = sint (timestamp msg - now) in
      if time_left \<le> 0 then DrawMessages_loop draw_messages now index es
      else if draw_messages then
        (let r = DrawMessages_loop draw_messages now (index + 1) es
         in (e # fst r, DrawMessage index msg time_left # snd r))
      else
        (let r = DrawMessages_loop draw_messages now index es
         in (e # fst r, snd r)))"

text \<open>
  \<^verbatim>\<open>DrawMessages\<close>: \<open>draw_messages\<close> is the configuration flag
  \<^verbatim>\<open>SConfig::GetInstance().bOnScreenDisplayMessages\<close>, \<open>now\<close> the clock reading.
\<close>

definition DrawMessages :: "bool \<Rightarrow> u32 \<Rightarrow> 'k multimap \<Rightarrow> 'k multimap \<times> draw_call list" where
  "DrawMessages draw_messages now s_messages = DrawMessages_loop draw_messages now 0 s_messages"

text \<open>The messages stored under one key, in queue order.\<close>

definition entries :: "'k \<Rightarrow> 'k multimap \<Rightarrow> Message list" where
  "entries k s_messages = map snd (filter (\<lambda>e. fst e = k) s_messages)"

text \<open>
  A call of \<^verbatim>\<open>AddTypedMessage\<close> with the clock reading it sees, and a sequence of such
  calls run one after the other.
\<close>

record 'k typed_call =
  call_now :: u32
  call_type :: 'k
  call_message :: string
  call_ms :: u32
  call_rgba :: u32

definition run_typed_call :: "'k::linorder typed_call \<Rightarrow> 'k multimap \<Rightarrow> 'k multimap" where
  "run_typed_call c s_messages =
     AddTypedMessage (call_now c) (call_type c) (call_message c) (call_ms c) (call_rgba c) s_messages"

fun run_typed_calls :: "'k::linorder typed_call list \<Rightarrow> 'k multimap \<Rightarrow> 'k multimap" where
  "run_typed_calls [] s_messages = s_messages"
| "run_typed_calls (c # cs) s_messages = run_typed_calls cs (run_typed_call c s_messages)"

text \<open>The message a call inserts.\<close>

definition call_entry :: "'k typed_call \<Rightarrow> Message" where
  "call_entry c =
     \<lparr>text = call_message c, timestamp = call_now c + call_ms c, color = call_rgba c\<rparr>"

text \<open>A call of \<^verbatim>\<open>AddMessage\<close>: clock reading, text, duration, colour; and a sequence of them.\<close>

record untyped_call =
  add_now :: u32
  add_message :: string
  add_ms :: u32
  add_rgba :: u32

fun run_untyped_calls :: "'k::linorder \<Rightarrow> untyped_call list \<Rightarrow> 'k multimap \<Rightarrow> 'k multimap" where
  "run_untyped_calls Typeless [] s_messages = s_messages"
| "run_untyped_calls Typeless (c # cs) s_messages =
     run_untyped_calls Typeless cs
       (AddMessage Typeless (add_now c) (add_message c) (add_ms c) (add_rgba c) s_messages)"

section \<open>The playback controls\<close>

text \<open>
  The part of \<^verbatim>\<open>OnScreenDisplay.cpp\<close> under \<^verbatim>\<open>#ifdef IS_PLAYBACK\<close>. The widgets are
  drawn once per frame. What the immediate-mode library reports to a widget in a frame is
  an input of the frame: whether the left button is down (\<^verbatim>\<open>g.IO.MouseDown[0]\<close>), whether
  the widget's region is hovered (\<^verbatim>\<open>ImGui::ItemHoverable\<close>), and the value the pointer
  position maps to, \<^verbatim>\<open>ImLerp(v_min, v_max, clicked_t)\<close>, which the library's helpers
  compute in floating point from the pointer position and the bar's extent.

  \<^verbatim>\<open>DrawSlippiPlaybackControls\<close> updates the idle timer and then, inside
  \<^verbatim>\<open>if (ImGui::Begin(...))\<close>, draws the seek bar, sets the opacity, and draws the buttons and
  the volume bar. The definitions below are these parts of its body, each for a frame in
  which the window has begun. The step and jump buttons, the help button, the fullscreen
  button and the time text at the end of the body are not part of this development.
\<close>

record pointer =
  isDown :: bool
  hovered :: bool
  pos_value :: int

text \<open>
  The calls that leave the overlay. \<^verbatim>\<open>Host_PlaybackSeek()\<close> takes no argument and seeks
  to \<^verbatim>\<open>g_playbackStatus->targetFrameNum\<close>: the effect records that field as it is at the
  call. \<^verbatim>\<open>AudioCommon::UpdateSoundStream()\<close> applies \<^verbatim>\<open>SConfig::GetInstance().m_Volume\<close>:
  the effect records the volume as it is at the call.
\<close>

datatype effect = Host_PlaybackSeek int | UpdateSoundStream int | Host_Fullscreen

text \<open>What is undefined behaviour in the source is an error value.\<close>

datatype error = SignedOverflow | BufferOverflow

text \<open>
  \<^verbatim>\<open>%02d\<close> of \<^verbatim>\<open>sprintf\<close>: the decimal digits, a minus sign first for a negative number,
  zeros on the left up to the width of two characters.
\<close>

definition printf_02d :: "int \<Rightarrow> string" where
  "printf_02d x =
     (if x < 0 then CHR ''-'' # decimal (nat (- x))
      else if x < 10 then CHR ''0'' # decimal (nat x)
      else decimal (nat x))"

text \<open>
  \<^verbatim>\<open>GetTimeForFrame\<close>. \<^verbatim>\<open>Slippi::GAME_FIRST_FRAME\<close> is declared in the Slippi headers, which
  are not among the sources: it is a parameter. The division and remainder of C++ truncate
  towards zero (\<open>sdiv\<close>, \<open>smod\<close>). The subtraction is on \<^verbatim>\<open>s32\<close>, where overflow is
  undefined. \<^verbatim>\<open>sprintf(currTime, "%02d:%02d", currMinutes, currRemainder)\<close> writes the
  characters and a terminating zero into \<^verbatim>\<open>char currTime[6]\<close>: more than five characters
  overrun the buffer.
\<close>

definition GetTimeForFrame :: "int \<Rightarrow> int \<Rightarrow> error + string" where
  "GetTimeForFrame GAME_FIRST_FRAME currFrame =
     (let elapsed = currFrame - GAME_FIRST_FRAME in
      if elapsed < - (2 ^ 31) \<or> 2 ^ 31 \<le> elapsed then Inl SignedOverflow
      else
        (let currSeconds = elapsed sdiv 60;
             currMinutes = currSeconds sdiv 60;
             currRemainder = currSeconds smod 60;
             currTime = printf_02d currMinutes @ '':'' @ printf_02d currRemainder
         in if 6 < length currTime + 1 then Inl BufferOverflow else Inr currTime))"



subsection \<open>The seek bar\<close>








subsection \<open>The volume bar and the mute button\<close>

text \<open>
  \<^verbatim>\<open>int* volume = &SConfig::GetInstance().m_Volume\<close>, \<^verbatim>\<open>static int prev\<close> (zero at the
  start, as every static), and \<^verbatim>\<open>static bool isHeld\<close> of \<^verbatim>\<open>VolumeBarBehavior\<close>.
\<close>

record volume_state =
  m_Volume :: int
  prev :: int
  volume_isHeld :: bool

text \<open>
  The mute button: \<open>pressed\<close> is what \<^verbatim>\<open>ButtonCustom\<close> returns.
  \<^verbatim>\<open>if (*volume == 0) { *volume = prev == 0 ? 30 : prev; }\<close>
  \<^verbatim>\<open>else { prev = *volume; *volume = 0; }\<close>
  \<^verbatim>\<open>AudioCommon::UpdateSoundStream();\<close>
\<close>

definition DrawSlippiPlaybackControls_mute ::
  "bool \<Rightarrow> volume_state \<Rightarrow> volume_state \<times> effect list" where
  "DrawSlippiPlaybackControls_mute pressed s =
     (if pressed then
        (let s' = (if m_Volume s = 0
                   then s\<lparr>m_Volume := (if prev s = 0 then 30 else prev s)\<rparr>
                   else s\<lparr>prev := m_Volume s, m_Volume := 0\<rparr>)
         in (s', [UpdateSoundStream (m_Volume s')]))
      else (s, []))"

text \<open>
  \<^verbatim>\<open>VolumeBarBehavior\<close>: \<open>new_value\<close> as for the seek bar;
  \<^verbatim>\<open>if (*v != new_value && isDown) { value_changed = true; *v = new_value; }\<close> inside
  \<^verbatim>\<open>if (isHeld || hovered)\<close>; then
  \<^verbatim>\<open>isHeld = isHeld ? isHeld && isDown : hovered && isDown;\<close>
\<close>

definition VolumeBarBehavior :: "pointer \<Rightarrow> volume_state \<Rightarrow> bool \<times> volume_state" where
  "VolumeBarBehavior p s =
     (let isHeld = volume_isHeld s;
          new_value = (if isHeld \<or> hovered p then pos_value p else 0);
          changed = ((isHeld \<or> hovered p) \<and> m_Volume s \<noteq> new_value \<and> isDown p);
          v = (if changed then new_value else m_Volume s);
          isHeld' = (if isHeld then isHeld \<and> isDown p else hovered p \<and> isDown p)
      in (changed, s\<lparr>m_Volume := v, volume_isHeld := isHeld'\<rparr>))"

text \<open>\<^verbatim>\<open>VolumeBar\<close>: \<^verbatim>\<open>if (window->SkipItems) return false;\<close>, else \<^verbatim>\<open>VolumeBarBehavior\<close>.\<close>

definition VolumeBar :: "bool \<Rightarrow> pointer \<Rightarrow> volume_state \<Rightarrow> bool \<times> volume_state" where
  "VolumeBar SkipItems p s = (if SkipItems then (False, s) else VolumeBarBehavior p s)"

text \<open>
  The volume bar in \<^verbatim>\<open>DrawSlippiPlaybackControls\<close>:
  \<^verbatim>\<open>if (VolumeBar("SlippiVolume", ..., volume, 0, 100, 1.0)) { AudioCommon::UpdateSoundStream(); }\<close>
\<close>

definition DrawSlippiPlaybackControls_volume ::
  "bool \<Rightarrow> pointer \<Rightarrow> volume_state \<Rightarrow> volume_state \<times> effect list" where
  "DrawSlippiPlaybackControls_volume SkipItems p s =
     (let r = VolumeBar SkipItems p s
      in (snd r, if fst r then [UpdateSoundStream (m_Volume (snd r))] else []))"

subsection \<open>The idle fade\<close>

text \<open>
  \<^verbatim>\<open>u32 idle_tick\<close> and \<^verbatim>\<open>ImVec2 prev_mouse\<close>. The two coordinates of the pointer are only
  compared for equality.
\<close>

record idle_state =
  idle_tick :: u32
  prev_mouse :: "rat \<times> rat"

text \<open>
  The start of \<^verbatim>\<open>DrawSlippiPlaybackControls\<close>:
  \<^verbatim>\<open>if (!(mousePos[0] == prev_mouse[0] && mousePos[1] == prev_mouse[1])) idle_tick = currTime;\<close>
  \<^verbatim>\<open>prev_mouse = mousePos;\<close>
  \<^verbatim>\<open>s32 diff = currTime - idle_tick;\<close>
  \<^verbatim>\<open>diff = diff < 1000 ? 0 : diff - 1000;\<close>
  The result is \<open>diff\<close> and the state after.
\<close>

definition DrawSlippiPlaybackControls_idle ::
  "u32 \<Rightarrow> rat \<times> rat \<Rightarrow> idle_state \<Rightarrow> int \<times> idle_state" where
  "DrawSlippiPlaybackControls_idle currTime mousePos s =
     (let tick = (if \<not> (fst mousePos = fst (prev_mouse s) \<and> snd mousePos = snd (prev_mouse s))
                  then currTime else idle_tick s);
          diff = sint (currTime - tick);
          diff' = (if diff < 1000 then 0 else diff - 1000)
      in (diff', \<lparr>idle_tick = tick, prev_mouse = mousePos\<rparr>))"

text \<open>
  Single precision. A \<^verbatim>\<open>float\<close> of the source is the rational number it stands for, and
  every operation on floats gives the exact result rounded by \<open>f32\<close> to the nearest number
  with a significand of \<open>24\<close> bits, a tie going to the even significand (IEEE 754 binary32,
  round to nearest even). \<open>quantum x\<close> is the spacing of the single-precision numbers around
  \<open>x\<close>: \<open>2\<^sup>-\<^sup>1\<^sup>4\<^sup>9\<close> below \<open>2\<^sup>-\<^sup>1\<^sup>2\<^sup>5\<close>, and doubling with every power of two from there, up
  to \<open>2\<^sup>1\<^sup>0\<^sup>4\<close> for the largest finite numbers. Numbers of \<open>2\<^sup>1\<^sup>2\<^sup>8\<close> and more, which round to
  infinity, do not occur in this file.
\<close>

fun quantum_from :: "nat \<Rightarrow> rat \<Rightarrow> rat \<Rightarrow> rat" where
  "quantum_from 0 u a = u"
| "quantum_from (Suc n) u a = (if a < u * 2 ^ 24 then u else quantum_from n (2 * u) a)"

definition min_quantum :: rat where
  "min_quantum = 1 / 2 ^ 149"

definition quantum :: "rat \<Rightarrow> rat" where
  "quantum x = quantum_from 253 min_quantum \<bar>x\<bar>"

definition round_even :: "rat \<Rightarrow> int" where
  "round_even r =
     (let f = \<lfloor>r\<rfloor>; d = r - of_int f
      in if d < 1 / 2 then f else if 1 / 2 < d then f + 1 else if even f then f else f + 1)"

definition f32 :: "rat \<Rightarrow> rat" where
  "f32 x = (let u = quantum x in u * of_int (round_even (x / u)))"

text \<open>
  \<^verbatim>\<open>style.Alpha = (showHelp || ImGui::GetHoveredID()) ? 1 : std::max(0.0001f, 1.0f - (diff / 1000.0f));\<close>
  \<open>hoveredID\<close> is what \<^verbatim>\<open>ImGui::GetHoveredID()\<close> returns, zero when nothing is hovered.
  The literal \<^verbatim>\<open>0.0001f\<close> is \<open>f32 (1 / 10000)\<close>; \<^verbatim>\<open>diff\<close> is converted to \<^verbatim>\<open>float\<close>, divided by
  \<^verbatim>\<open>1000.0f\<close> and subtracted from \<^verbatim>\<open>1.0f\<close>, each step rounded.
\<close>

definition DrawSlippiPlaybackControls_alpha :: "bool \<Rightarrow> u32 \<Rightarrow> int \<Rightarrow> rat" where
  "DrawSlippiPlaybackControls_alpha showHelp hoveredID diff =
     (if showHelp \<or> hoveredID \<noteq> 0 then 1
      else max (f32 (1 / 10000)) (f32 (1 - f32 (f32 (of_int diff) / 1000))))"

text \<open>A run of frames, each with its clock reading and pointer position.\<close>

fun idle_frames :: "(u32 \<times> rat \<times> rat) list \<Rightarrow> idle_state \<Rightarrow> idle_state" where
  "idle_frames [] s = s"
| "idle_frames (f # fs) s =
     idle_frames fs (snd (DrawSlippiPlaybackControls_idle (fst f) (snd f) s))"

section \<open>Properties of the message queue\<close>

lemma entries_Nil: "entries k [] = []"
  by (simp add: entries_def)

lemma entries_erase: "entries t (erase k q) = (if t = k then [] else entries t q)"
  by (induction q) (auto simp: entries_def erase_def)

lemma entries_emplace_other: "t \<noteq> k \<Longrightarrow> entries t (emplace k m q) = entries t q"
  by (induction q) (auto simp: entries_def)

lemma entries_emplace_fresh: "entries k q = [] \<Longrightarrow> entries k (emplace k m q) = [m]"
  by (induction q) (auto simp: entries_def split: if_splits)

lemma length_entries_emplace:
  "length (entries t (emplace k m q)) = (if t = k then Suc (length (entries t q)) else length (entries t q))"
  by (induction q) (auto simp: entries_def)

lemma set_emplace: "set (emplace k m q) = insert (k, m) (set q)"
  by (induction q) auto

lemma sorted_emplace: "sorted (map fst q) \<Longrightarrow> sorted (map fst (emplace k m q))"
  by (induction q) (auto simp: set_emplace)

lemma entries_AddTypedMessage:
  "entries t (AddTypedMessage now k message ms rgba q) =
     (if t = k then [\<lparr>text = message, timestamp = now + ms, color = rgba\<rparr>] else entries t q)"
  by (simp add: AddTypedMessage_def entries_emplace_other entries_emplace_fresh entries_erase)

lemma entries_run_typed_call:
  "entries t (run_typed_call c q) = (if t = call_type c then [call_entry c] else entries t q)"
  by (simp add: run_typed_call_def call_entry_def entries_AddTypedMessage)

lemma entries_run_typed_calls_other:
  "\<forall>c \<in> set cs. call_type c \<noteq> t \<Longrightarrow> entries t (run_typed_calls cs q) = entries t q"
  by (induction cs arbitrary: q) (auto simp: entries_run_typed_call)

lemma run_typed_calls_append:
  "run_typed_calls (cs @ ds) q = run_typed_calls ds (run_typed_calls cs q)"
  by (induction cs arbitrary: q) simp_all

lemma length_entries_run_typed_calls:
  "length (entries t q) \<le> 1 \<Longrightarrow> length (entries t (run_typed_calls cs q)) \<le> 1"
  by (induction cs arbitrary: q) (simp_all add: entries_run_typed_call)

lemma length_entries_run_untyped_calls:
  "length (entries t (run_untyped_calls Typeless cs q)) =
     (if t = Typeless then length (entries t q) + length cs else length (entries t q))"
  by (induction cs arbitrary: q) (simp_all add: AddMessage_def length_entries_emplace)

text \<open>
  C1. Run any sequence of \<open>AddTypedMessage\<close> calls on any queue. For the last call of a
  key (a call \<open>c\<close> followed only by calls of other keys), the queue afterwards holds
  exactly one message under that key, and it is the one this call inserted: its text and
  colour, and the expiry \<open>now + ms\<close> of the call (a \<^verbatim>\<open>u32\<close> sum). A single call leaves
  exactly its own message under its key whatever the queue held before; and starting from
  the empty queue no key ever holds more than one message.
\<close>

theorem typed_messages_unique_latest:
  "((\<forall>c'\<in>set cs'. call_type c' \<noteq> call_type c) \<longrightarrow>
      entries (call_type c) (run_typed_calls (cs @ c # cs') q) =
        [\<lparr>text = call_message c, timestamp = call_now c + call_ms c, color = call_rgba c\<rparr>]) \<and>
   entries type (AddTypedMessage now type message ms rgba q) =
     [\<lparr>text = message, timestamp = now + ms, color = rgba\<rparr>] \<and>
   length (entries t (run_typed_calls cs [])) \<le> 1"
proof (intro conjI impI)
  assume other: "\<forall>c'\<in>set cs'. call_type c' \<noteq> call_type c"
  have "entries (call_type c) (run_typed_calls (cs @ c # cs') q) =
        entries (call_type c) (run_typed_call c (run_typed_calls cs q))"
    using other by (simp add: run_typed_calls_append entries_run_typed_calls_other)
  also have "\<dots> = [call_entry c]"
    by (simp add: entries_run_typed_call)
  finally show "entries (call_type c) (run_typed_calls (cs @ c # cs') q) =
     [\<lparr>text = call_message c, timestamp = call_now c + call_ms c, color = call_rgba c\<rparr>]"
    by (simp add: call_entry_def)
next
  show "entries type (AddTypedMessage now type message ms rgba q) =
     [\<lparr>text = message, timestamp = now + ms, color = rgba\<rparr>]"
    by (simp add: entries_AddTypedMessage)
next
  show "length (entries t (run_typed_calls cs [])) \<le> 1"
    by (rule length_entries_run_typed_calls) (simp add: entries_Nil)
qed

theorem typed_messages_unique_latest_witness:
  "entries (1::nat)
     (run_typed_calls
        [\<lparr>call_now = 100, call_type = 1, call_message = ''ping 10'', call_ms = 2000, call_rgba = 0xFFFFFF00\<rparr>,
         \<lparr>call_now = 150, call_type = 1, call_message = ''ping 20'', call_ms = 2000, call_rgba = 0xFFFFFF00\<rparr>,
         \<lparr>call_now = 160, call_type = 0, call_message = ''buffer'', call_ms = 500, call_rgba = 0xFF00FFFF\<rparr>]
        [(1, \<lparr>text = ''old'', timestamp = 7, color = 0\<rparr>), (1, \<lparr>text = ''older'', timestamp = 9, color = 0\<rparr>)])
   = [\<lparr>text = ''ping 20'', timestamp = 2150, color = 0xFFFFFF00\<rparr>]"
  using typed_messages_unique_latest
    [where cs' = "[\<lparr>call_now = 160, call_type = 0::nat, call_message = ''buffer'', call_ms = 500, call_rgba = 0xFF00FFFF\<rparr>]"
       and c = "\<lparr>call_now = 150, call_type = 1::nat, call_message = ''ping 20'', call_ms = 2000, call_rgba = 0xFFFFFF00\<rparr>"
       and cs = "[\<lparr>call_now = 100, call_type = 1::nat, call_message = ''ping 10'', call_ms = 2000, call_rgba = 0xFFFFFF00\<rparr>]"
       and q = "[(1, \<lparr>text = ''old'', timestamp = 7, color = 0\<rparr>), (1, \<lparr>text = ''older'', timestamp = 9, color = 0\<rparr>)]"]
  by simp

text \<open>
  C2. Messages added with \<open>AddMessage\<close> are stored under the key \<open>Typeless\<close> and pile up
  there: after any run of \<open>AddMessage\<close> calls the key holds as many more messages as there
  were calls. One call \<open>AddTypedMessage\<close> with the key \<open>Typeless\<close> then erases all of them
  and leaves exactly one message under that key, its own.
\<close>

theorem typed_typeless_evicts_untyped:
  "length (entries Typeless (run_untyped_calls Typeless cs q)) =
     length (entries Typeless q) + length cs \<and>
   entries Typeless
     (AddTypedMessage now Typeless message ms rgba (run_untyped_calls Typeless cs q)) =
     [\<lparr>text = message, timestamp = now + ms, color = rgba\<rparr>]"
  by (simp add: length_entries_run_untyped_calls entries_AddTypedMessage)

theorem typed_typeless_evicts_untyped_witness:
  "length (entries (2::nat) (run_untyped_calls 2
      [\<lparr>add_now = 10, add_message = ''saved state'', add_ms = 2000, add_rgba = 0xFFFFFF00\<rparr>,
       \<lparr>add_now = 20, add_message = ''loaded state'', add_ms = 2000, add_rgba = 0xFFFFFF00\<rparr>] [])) = 2 \<and>
   entries (2::nat) (AddTypedMessage 30 2 ''typed'' 5000 0xFF00FF00 (run_untyped_calls 2
      [\<lparr>add_now = 10, add_message = ''saved state'', add_ms = 2000, add_rgba = 0xFFFFFF00\<rparr>,
       \<lparr>add_now = 20, add_message = ''loaded state'', add_ms = 2000, add_rgba = 0xFFFFFF00\<rparr>] [])) =
     [\<lparr>text = ''typed'', timestamp = 5030, color = 0xFF00FF00\<rparr>]"
  using typed_typeless_evicts_untyped
    [where Typeless = "2::nat" and q = "[]" and now = 30 and message = "''typed''" and ms = 5000
       and rgba = "0xFF00FF00"
       and cs = "[\<lparr>add_now = 10, add_message = ''saved state'', add_ms = 2000, add_rgba = 0xFFFFFF00\<rparr>,
       \<lparr>add_now = 20, add_message = ''loaded state'', add_ms = 2000, add_rgba = 0xFFFFFF00\<rparr>]"]
  by (simp add: entries_Nil)

subsection \<open>Expiry\<close>

text \<open>The signed reading of a 32-bit word, and of a difference of two.\<close>

lemma mod_shift: "(0::int) \<le> k \<Longrightarrow> k < m \<Longrightarrow> (k + m) mod m = k"
  by simp

lemma sint_cases:
  "sint (w :: 32 word) = (if uint w < 2147483648 then uint w else uint w - 4294967296)"
proof (cases "uint w < 2147483648")
  case True
  have nonneg: "- 2147483648 \<le> uint w"
    using uint_ge_0[of w] by linarith
  have "signed_take_bit 31 (uint w) = uint w"
    by (rule signed_take_bit_int_eq_self) (use True nonneg in simp_all)
  with True show ?thesis by (simp add: sint_uint)
next
  case False
  have bound: "uint w < 4294967296" using uint_bounded[of w] by simp
  have "(uint w - 2147483648 + 4294967296) mod 4294967296 = uint w - 2147483648"
    by (rule mod_shift) (use False bound in simp_all)
  then have "(uint w + 2147483648) mod 4294967296 = uint w - 2147483648"
    by (simp add: algebra_simps)
  then have "take_bit 32 (uint w + 2147483648) = uint w - 2147483648"
    by (simp add: take_bit_eq_mod)
  with False show ?thesis by (simp add: sint_uint signed_take_bit_eq_take_bit_shift)
qed

lemma time_left_positive_int:
  fixes d e :: "32 word"
  assumes "uint e < uint d" "uint d - uint e < 2147483648"
  shows "0 < sint (d - e)"
  using assms uint_sub_if'[of d e] unfolding sint_cases by simp

lemma time_left_nonpositive_int:
  fixes d e :: "32 word"
  assumes "uint d \<le> uint e" "uint e - uint d \<le> 2147483648"
  shows "sint (d - e) \<le> 0"
  using assms uint_sub_if'[of d e] unfolding sint_cases by (simp split: if_splits)

lemma time_left_positive:
  fixes d e :: "32 word"
  assumes "unat e < unat d" "unat d - unat e < 2147483648"
  shows "0 < sint (d - e)"
proof (rule time_left_positive_int)
  show "uint e < uint d" using assms(1) by (simp add: word_less_nat_alt[symmetric] word_less_def)
  have "int (unat d - unat e) < 2147483648" using assms(2) by simp
  then show "uint d - uint e < 2147483648" using assms(1) by (simp add: of_nat_diff)
qed

lemma time_left_nonpositive:
  fixes d e :: "32 word"
  assumes "unat d \<le> unat e" "unat e - unat d \<le> 2147483648"
  shows "sint (d - e) \<le> 0"
proof (rule time_left_nonpositive_int)
  show "uint d \<le> uint e" using assms(1) by (simp add: word_le_nat_alt[symmetric] word_le_def)
  have "int (unat e - unat d) \<le> 2147483648" using assms(2) by simp
  then show "uint e - uint d \<le> 2147483648" using assms(1) by (simp add: of_nat_diff)
qed

lemma fst_DrawMessages_loop:
  "fst (DrawMessages_loop draw_messages now i q) =
     filter (\<lambda>e. 0 < sint (timestamp (snd e) - now)) q"
  by (induction q arbitrary: i) (auto simp: Let_def)

lemma snd_DrawMessages_loop_off: "snd (DrawMessages_loop False now i q) = []"
  by (induction q arbitrary: i) (auto simp: Let_def)

lemma snd_DrawMessages_loop_on:
  "snd (DrawMessages_loop True now i q) =
     map (\<lambda>(j, e). DrawMessage j (snd e) (sint (timestamp (snd e) - now)))
       (enumerate i (filter (\<lambda>e. 0 < sint (timestamp (snd e) - now)) q))"
  by (induction q arbitrary: i) (auto simp: Let_def)

lemma drawn_DrawMessages_loop_on:
  "map drawn (snd (DrawMessages_loop True now i q)) =
     map snd (filter (\<lambda>e. 0 < sint (timestamp (snd e) - now)) q)"
  by (induction q arbitrary: i) (auto simp: Let_def DrawMessage_def)

lemma draw_calls_DrawMessages_loop:
  "c \<in> set (snd (DrawMessages_loop draw_messages now i q)) \<Longrightarrow>
     0 < sint (timestamp (drawn c) - now) \<and>
     alpha c = min 1 (max 0 (of_int (sint (timestamp (drawn c) - now)) / 1024))"
  by (induction q arbitrary: i) (auto simp: Let_def DrawMessage_def split: if_splits)

lemma fst_DrawMessages:
  "fst (DrawMessages draw_messages now q) = filter (\<lambda>e. 0 < sint (timestamp (snd e) - now)) q"
  by (simp add: DrawMessages_def fst_DrawMessages_loop)

lemma time_left_added: "(t + d) - now = d - (now - t)" for t d now :: u32
  by simp

text \<open>
  C3, as the code has it. Let a message with expiry \<open>t + d\<close> be in the queue (as
  \<open>AddMessage\<close> and \<open>AddTypedMessage\<close> called at time \<open>t\<close> with duration \<open>d\<close> insert it), and
  let \<open>now - t\<close> be the time elapsed on the 32-bit clock. \<open>DrawMessages\<close> keeps the message
  when the elapsed time is below \<open>d\<close> and the remaining time \<open>d - (now - t)\<close> is below
  \<open>2\<^sup>3\<^sup>1\<close> milliseconds; it removes the message when the elapsed time has reached \<open>d\<close>
  and is at most \<open>2\<^sup>3\<^sup>1\<close> beyond it. The queue after the call is the same whether or not
  drawing is enabled; nothing is drawn when it is disabled; when it is enabled, exactly
  the messages that are kept are drawn, in queue order.
\<close>

theorem retained_until_expiry:
  assumes "(k, m) \<in> set q" and "timestamp m = t + d"
  shows
    "(unat (now - t) < unat d \<and> unat d - unat (now - t) < 2 ^ 31 \<longrightarrow>
        (k, m) \<in> set (fst (DrawMessages draw_messages now q))) \<and>
     (unat d \<le> unat (now - t) \<and> unat (now - t) - unat d \<le> 2 ^ 31 \<longrightarrow>
        (k, m) \<notin> set (fst (DrawMessages draw_messages now q))) \<and>
     fst (DrawMessages True now q) = fst (DrawMessages False now q) \<and>
     snd (DrawMessages False now q) = [] \<and>
     map drawn (snd (DrawMessages True now q)) = map snd (fst (DrawMessages True now q))"
proof (intro conjI impI)
  assume "unat (now - t) < unat d \<and> unat d - unat (now - t) < 2 ^ 31"
  then have "0 < sint (d - (now - t))"
    by (intro time_left_positive) simp_all
  then have "0 < sint (timestamp m - now)"
    by (simp only: assms(2) time_left_added)
  with assms(1) show "(k, m) \<in> set (fst (DrawMessages draw_messages now q))"
    by (simp add: fst_DrawMessages)
next
  assume "unat d \<le> unat (now - t) \<and> unat (now - t) - unat d \<le> 2 ^ 31"
  then have "sint (d - (now - t)) \<le> 0"
    by (intro time_left_nonpositive) simp_all
  then have "sint (timestamp m - now) \<le> 0"
    by (simp only: assms(2) time_left_added)
  then show "(k, m) \<notin> set (fst (DrawMessages draw_messages now q))"
    by (simp add: fst_DrawMessages)
next
  show "fst (DrawMessages True now q) = fst (DrawMessages False now q)"
    by (simp add: fst_DrawMessages)
next
  show "snd (DrawMessages False now q) = []"
    by (simp add: DrawMessages_def snd_DrawMessages_loop_off)
next
  show "map drawn (snd (DrawMessages True now q)) = map snd (fst (DrawMessages True now q))"
    by (simp add: DrawMessages_def drawn_DrawMessages_loop_on fst_DrawMessages_loop)
qed

theorem retained_until_expiry_witness:
  "(2::nat, \<lparr>text = ''saved'', timestamp = 3000, color = 0xFFFFFF00\<rparr>)
      \<in> set (fst (DrawMessages False 2999 (AddMessage 2 1000 ''saved'' 2000 0xFFFFFF00 []))) \<and>
   (2::nat, \<lparr>text = ''saved'', timestamp = 3000, color = 0xFFFFFF00\<rparr>)
      \<notin> set (fst (DrawMessages False 3000 (AddMessage 2 1000 ''saved'' 2000 0xFFFFFF00 []))) \<and>
   snd (DrawMessages False 2999 (AddMessage (2::nat) 1000 ''saved'' 2000 0xFFFFFF00 [])) = [] \<and>
   map drawn (snd (DrawMessages True 2999 (AddMessage (2::nat) 1000 ''saved'' 2000 0xFFFFFF00 []))) =
     [\<lparr>text = ''saved'', timestamp = 3000, color = 0xFFFFFF00\<rparr>]"
  using
    retained_until_expiry [where k = "2::nat" and t = 1000 and d = 2000 and now = 2999
      and m = "\<lparr>text = ''saved'', timestamp = 3000, color = 0xFFFFFF00\<rparr>"
      and q = "AddMessage 2 1000 ''saved'' 2000 0xFFFFFF00 []" and draw_messages = False]
    retained_until_expiry [where k = "2::nat" and t = 1000 and d = 2000 and now = 3000
      and m = "\<lparr>text = ''saved'', timestamp = 3000, color = 0xFFFFFF00\<rparr>"
      and q = "AddMessage 2 1000 ''saved'' 2000 0xFFFFFF00 []" and draw_messages = False]
  by (simp add: AddMessage_def DrawMessages_def DrawMessage_def)

text \<open>
  The claim C3 without the bound on the remaining time fails: a message added at time
  \<open>1000\<close> with a duration of \<open>3000000000\<close> milliseconds is removed by a call at time \<open>1016\<close>,
  because its remaining time, read as a signed 32-bit integer, is negative.
\<close>

theorem long_duration_pruned_at_once:
  "unat (1000 :: u32) \<le> unat (1016 :: u32) \<and>
   unat (1016 :: u32) < unat (1000 :: u32) + unat (3000000000 :: u32) \<and>
   fst (DrawMessages True 1016 (AddMessage (2::nat) 1000 ''saved'' 3000000000 0xFFFFFF00 [])) = []"
  by (simp add: AddMessage_def DrawMessages_def)

subsection \<open>Opacity\<close>

lemma draw_calls_DrawMessages:
  "c \<in> set (snd (DrawMessages draw_messages now q)) \<Longrightarrow>
     0 < sint (timestamp (drawn c) - now) \<and>
     alpha c = min 1 (max 0 (of_int (sint (timestamp (drawn c) - now)) / 1024))"
  by (simp add: DrawMessages_def draw_calls_DrawMessages_loop)

lemma drawn_DrawMessages_on:
  "drawn ` set (snd (DrawMessages True now q)) =
     snd ` {e \<in> set q. 0 < sint (timestamp (snd e) - now)}"
proof -
  have "set (map drawn (snd (DrawMessages True now q))) =
        set (map snd (filter (\<lambda>e. 0 < sint (timestamp (snd e) - now)) q))"
    by (simp only: DrawMessages_def drawn_DrawMessages_loop_on)
  then show ?thesis by simp
qed

lemma time_left_512: "sint ((t + d) - (t + d - 512) :: u32) = 512"
  by simp

lemma time_left_1024: "sint ((t + d) - (t + d - 1024) :: u32) = 1024"
  by simp

lemma clamp01_positive: "0 < n \<Longrightarrow> 0 < min 1 (max 0 (of_int n / 1024 :: rat))"
  by simp

lemma clamp01_saturated: "1024 \<le> n \<Longrightarrow> min 1 (max 0 (of_int n / 1024 :: rat)) = 1"
  by simp

lemma clamp01_half: "min 1 (max 0 (of_int 512 / 1024 :: rat)) = 1 / 2"
  by simp

lemma time_left_value_int:
  fixes d e :: "32 word"
  assumes "uint e < uint d" "uint d - uint e < 2147483648"
  shows "sint (d - e) = uint d - uint e"
  using assms uint_sub_if'[of d e] unfolding sint_cases by simp

lemma time_left_at_least:
  fixes d e :: "32 word"
  assumes "n \<le> unat d - unat e" "unat d - unat e < 2147483648" "0 < n"
  shows "int n \<le> sint (d - e)"
proof -
  have less: "unat e < unat d" using assms(1,3) by simp
  then have "uint e < uint d" by (simp add: word_less_nat_alt[symmetric] word_less_def)
  moreover have "int (unat d - unat e) < 2147483648" using assms(2) by simp
  then have "uint d - uint e < 2147483648" using less by (simp add: of_nat_diff)
  ultimately have "sint (d - e) = uint d - uint e" by (rule time_left_value_int)
  moreover have "int n \<le> int (unat d - unat e)" using assms(1) by simp
  then have "int n \<le> uint d - uint e" using less by (simp add: of_nat_diff)
  ultimately show ?thesis by simp
qed

text \<open>
  C4, as the code has it. The remaining lifetime of a message is \<open>time_left\<close>, the signed
  32-bit difference of its expiry and \<open>now\<close> that the loop of \<open>DrawMessages\<close> computes. Every
  draw call has a positive \<open>time_left\<close> and the opacity \<open>min 1 (max 0 (time_left / 1024))\<close>,
  which is positive; the opacity is \<open>1/2\<close> at \<open>now = t + d - 512\<close> for a message with expiry
  \<open>t + d\<close>, and \<open>1\<close> at \<open>now = t + d - 1024\<close> and whenever at least \<open>1024\<close> milliseconds remain.
  With drawing enabled every message with a positive \<open>time_left\<close> is drawn; a message whose
  \<open>time_left\<close> is zero or negative is erased from the queue and is not drawn at all.

  Over \<open>t\<close>, \<open>d\<close> and \<open>now\<close>, with \<open>now - t\<close> the time elapsed on the 32-bit clock: a message
  with expiry \<open>t + d\<close> is drawn at opacity \<open>1\<close> at every time at which at least \<open>1024\<close> and
  fewer than \<open>2\<^sup>3\<^sup>1\<close> milliseconds remain, and it is erased and not drawn when the elapsed
  time has reached \<open>d\<close> and is at most \<open>2\<^sup>3\<^sup>1\<close> beyond it.
\<close>

theorem opacity_clamped_time_left:
  "(\<forall>c\<in>set (snd (DrawMessages draw_messages now q)).
      0 < sint (timestamp (drawn c) - now) \<and>
      alpha c = min 1 (max 0 (of_int (sint (timestamp (drawn c) - now)) / 1024)) \<and>
      0 < alpha c \<and>
      (timestamp (drawn c) = t + d \<and> now = t + d - 512 \<longrightarrow> alpha c = 1 / 2) \<and>
      (timestamp (drawn c) = t + d \<and> now = t + d - 1024 \<longrightarrow> alpha c = 1) \<and>
      (1024 \<le> sint (timestamp (drawn c) - now) \<longrightarrow> alpha c = 1)) \<and>
   ((k, m) \<in> set q \<and> 0 < sint (timestamp m - now) \<longrightarrow>
      m \<in> drawn ` set (snd (DrawMessages True now q))) \<and>
   ((k, m) \<in> set q \<and> timestamp m = t + d \<and> now = t + d - 512 \<longrightarrow>
      (\<exists>c\<in>set (snd (DrawMessages True now q)). drawn c = m \<and> alpha c = 1 / 2)) \<and>
   ((k, m) \<in> set q \<and> timestamp m = t + d \<and> now = t + d - 1024 \<longrightarrow>
      (\<exists>c\<in>set (snd (DrawMessages True now q)). drawn c = m \<and> alpha c = 1)) \<and>
   ((k, m) \<in> set q \<and> sint (timestamp m - now) \<le> 0 \<longrightarrow>
      (k, m) \<notin> set (fst (DrawMessages draw_messages now q)) \<and>
      m \<notin> drawn ` set (snd (DrawMessages draw_messages now q))) \<and>
   ((k, m) \<in> set q \<and> timestamp m = t + d \<and>
      1024 \<le> unat d - unat (now - t) \<and> unat d - unat (now - t) < 2 ^ 31 \<longrightarrow>
      (\<exists>c\<in>set (snd (DrawMessages True now q)). drawn c = m \<and> alpha c = 1)) \<and>
   ((k, m) \<in> set q \<and> timestamp m = t + d \<and>
      unat d \<le> unat (now - t) \<and> unat (now - t) - unat d \<le> 2 ^ 31 \<longrightarrow>
      (k, m) \<notin> set (fst (DrawMessages draw_messages now q)) \<and>
      m \<notin> drawn ` set (snd (DrawMessages draw_messages now q)))"
proof (intro conjI ballI impI)
  fix c
  assume c: "c \<in> set (snd (DrawMessages draw_messages now q))"
  let ?left = "sint (timestamp (drawn c) - now)"
  from draw_calls_DrawMessages [OF c]
  have pos: "0 < ?left" and a: "alpha c = min 1 (max 0 (of_int ?left / 1024))"
    by simp_all
  show "0 < ?left" by (rule pos)
  show "alpha c = min 1 (max 0 (of_int ?left / 1024))" by (rule a)
  show "0 < alpha c" unfolding a by (rule clamp01_positive [OF pos])
  {
    assume "timestamp (drawn c) = t + d \<and> now = t + d - 512"
    then have "?left = 512" using time_left_512 [of t d] by simp
    then show "alpha c = 1 / 2" unfolding a by (simp only: clamp01_half)
  }
  {
    assume "timestamp (drawn c) = t + d \<and> now = t + d - 1024"
    then have "1024 \<le> ?left" using time_left_1024 [of t d] by simp
    then show "alpha c = 1" unfolding a by (rule clamp01_saturated)
  }
  {
    assume "1024 \<le> ?left"
    then show "alpha c = 1" unfolding a by (rule clamp01_saturated)
  }
next
  assume "(k, m) \<in> set q \<and> 0 < sint (timestamp m - now)"
  then show "m \<in> drawn ` set (snd (DrawMessages True now q))"
    by (force simp: drawn_DrawMessages_on)
next
  assume a: "(k, m) \<in> set q \<and> timestamp m = t + d \<and> now = t + d - 512"
  then have left: "sint (timestamp m - now) = 512" using time_left_512 [of t d] by simp
  with a have "m \<in> drawn ` set (snd (DrawMessages True now q))"
    by (force simp: drawn_DrawMessages_on)
  then obtain c where c: "c \<in> set (snd (DrawMessages True now q))" "drawn c = m"
    by auto
  from draw_calls_DrawMessages [OF c(1)] left c(2) have "alpha c = 1 / 2"
    by (simp only: clamp01_half)
  with c show "\<exists>c\<in>set (snd (DrawMessages True now q)). drawn c = m \<and> alpha c = 1 / 2"
    by blast
next
  assume a: "(k, m) \<in> set q \<and> timestamp m = t + d \<and> now = t + d - 1024"
  then have left: "sint (timestamp m - now) = 1024" using time_left_1024 [of t d] by simp
  with a have "m \<in> drawn ` set (snd (DrawMessages True now q))"
    by (force simp: drawn_DrawMessages_on)
  then obtain c where c: "c \<in> set (snd (DrawMessages True now q))" "drawn c = m"
    by auto
  have "min 1 (max 0 (of_int 1024 / 1024 :: rat)) = 1" by simp
  with draw_calls_DrawMessages [OF c(1)] left c(2) have "alpha c = 1"
    by simp
  with c show "\<exists>c\<in>set (snd (DrawMessages True now q)). drawn c = m \<and> alpha c = 1"
    by blast
next
  assume "(k, m) \<in> set q \<and> sint (timestamp m - now) \<le> 0"
  then show "(k, m) \<notin> set (fst (DrawMessages draw_messages now q))"
    by (simp add: fst_DrawMessages)
next
  assume old: "(k, m) \<in> set q \<and> sint (timestamp m - now) \<le> 0"
  show "m \<notin> drawn ` set (snd (DrawMessages draw_messages now q))"
  proof
    assume "m \<in> drawn ` set (snd (DrawMessages draw_messages now q))"
    then obtain c where "c \<in> set (snd (DrawMessages draw_messages now q))" "m = drawn c"
      by blast
    with draw_calls_DrawMessages [of c draw_messages now q] old show False by simp
  qed
next
  assume a: "(k, m) \<in> set q \<and> timestamp m = t + d \<and>
      1024 \<le> unat d - unat (now - t) \<and> unat d - unat (now - t) < 2 ^ 31"
  then have "int 1024 \<le> sint (d - (now - t))"
    by (intro time_left_at_least) simp_all
  then have left: "1024 \<le> sint (timestamp m - now)"
    using a by (simp only: time_left_added)
  with a have "m \<in> drawn ` set (snd (DrawMessages True now q))"
    by (force simp: drawn_DrawMessages_on)
  then obtain c where c: "c \<in> set (snd (DrawMessages True now q))" "drawn c = m"
    by auto
  from draw_calls_DrawMessages [OF c(1)] have "alpha c = min 1 (max 0 (of_int (sint (timestamp m - now)) / 1024))"
    by (simp only: c(2))
  also have "\<dots> = 1" using left by (rule clamp01_saturated)
  finally have "alpha c = 1" .
  with c show "\<exists>c\<in>set (snd (DrawMessages True now q)). drawn c = m \<and> alpha c = 1"
    by blast
next
  assume a: "(k, m) \<in> set q \<and> timestamp m = t + d \<and>
      unat d \<le> unat (now - t) \<and> unat (now - t) - unat d \<le> 2 ^ 31"
  then have "sint (d - (now - t)) \<le> 0"
    by (intro time_left_nonpositive) simp_all
  then have left: "sint (timestamp m - now) \<le> 0"
    using a by (simp only: time_left_added)
  then show "(k, m) \<notin> set (fst (DrawMessages draw_messages now q))"
    by (simp add: fst_DrawMessages)
  show "m \<notin> drawn ` set (snd (DrawMessages draw_messages now q))"
  proof
    assume "m \<in> drawn ` set (snd (DrawMessages draw_messages now q))"
    then obtain c where "c \<in> set (snd (DrawMessages draw_messages now q))" "m = drawn c"
      by blast
    with draw_calls_DrawMessages [of c draw_messages now q] left show False by simp
  qed
qed

theorem opacity_clamped_time_left_witness:
  "snd (DrawMessages True 2488
      [(2::nat, \<lparr>text = ''saved'', timestamp = 3000, color = 0xFFFFFF00\<rparr>),
       (2, \<lparr>text = ''loaded'', timestamp = 9000, color = 0xFF00FFFF\<rparr>),
       (2, \<lparr>text = ''gone'', timestamp = 2488, color = 0xFF00FFFF\<rparr>)]) =
     [\<lparr>window_name = ''osd_0'', drawn = \<lparr>text = ''saved'', timestamp = 3000, color = 0xFFFFFF00\<rparr>,
        alpha = 1 / 2\<rparr>,
      \<lparr>window_name = ''osd_1'', drawn = \<lparr>text = ''loaded'', timestamp = 9000, color = 0xFF00FFFF\<rparr>,
        alpha = 1\<rparr>]"
  using
    opacity_clamped_time_left [where draw_messages = True and now = 2488 and t = 1000 and d = 2000
      and k = "2::nat" and m = "\<lparr>text = ''saved'', timestamp = 3000, color = 0xFFFFFF00\<rparr>"
      and q = "[(2::nat, \<lparr>text = ''saved'', timestamp = 3000, color = 0xFFFFFF00\<rparr>),
       (2, \<lparr>text = ''loaded'', timestamp = 9000, color = 0xFF00FFFF\<rparr>),
       (2, \<lparr>text = ''gone'', timestamp = 2488, color = 0xFF00FFFF\<rparr>)]"]
    opacity_clamped_time_left [where draw_messages = True and now = 2488 and t = 1000 and d = 8000
      and k = "2::nat" and m = "\<lparr>text = ''loaded'', timestamp = 9000, color = 0xFF00FFFF\<rparr>"
      and q = "[(2::nat, \<lparr>text = ''saved'', timestamp = 3000, color = 0xFFFFFF00\<rparr>),
       (2, \<lparr>text = ''loaded'', timestamp = 9000, color = 0xFF00FFFF\<rparr>),
       (2, \<lparr>text = ''gone'', timestamp = 2488, color = 0xFF00FFFF\<rparr>)]"]
    opacity_clamped_time_left [where draw_messages = True and now = 2488 and t = 1000 and d = 1488
      and k = "2::nat" and m = "\<lparr>text = ''gone'', timestamp = 2488, color = 0xFF00FFFF\<rparr>"
      and q = "[(2::nat, \<lparr>text = ''saved'', timestamp = 3000, color = 0xFFFFFF00\<rparr>),
       (2, \<lparr>text = ''loaded'', timestamp = 9000, color = 0xFF00FFFF\<rparr>),
       (2, \<lparr>text = ''gone'', timestamp = 2488, color = 0xFF00FFFF\<rparr>)]"]
  by (simp add: DrawMessages_def DrawMessage_def decimal.simps digit_def Let_def)

text \<open>
  The claim C4 without the bound fails in its last part: a message added at time \<open>0\<close> with
  a duration of \<open>1\<close> millisecond is not pruned by a call at time \<open>2147483650\<close>, long after
  its expiry: its \<open>time_left\<close>, read as a signed 32-bit integer, is \<open>2147483647\<close>, and it is
  kept and drawn at opacity \<open>1\<close>.
\<close>

theorem expired_long_ago_drawn_opaque:
  "unat (0 :: u32) + unat (1 :: u32) \<le> unat (2147483650 :: u32) \<and>
   DrawMessages True 2147483650 (AddMessage (2::nat) 0 ''saved'' 1 0xFFFFFF00 []) =
     ([(2, \<lparr>text = ''saved'', timestamp = 1, color = 0xFFFFFF00\<rparr>)],
      [\<lparr>window_name = ''osd_0'', drawn = \<lparr>text = ''saved'', timestamp = 1, color = 0xFFFFFF00\<rparr>,
         alpha = 1\<rparr>])"
  by (simp add: AddMessage_def DrawMessages_def DrawMessage_def decimal.simps digit_def Let_def)

section \<open>Properties of the playback controls\<close>

subsection \<open>The time label\<close>

lemma decimal_two_digits: "n < 100 \<Longrightarrow> printf_02d (int n) = [digit (n div 10), digit (n mod 10)]"
proof -
  assume n: "n < 100"
  show ?thesis
  proof (cases "n < 10")
    case True
    then show ?thesis by (simp add: printf_02d_def decimal.simps digit_def)
  next
    case False
    then have "decimal n = decimal (n div 10) @ [digit (n mod 10)]"
      by (subst decimal.simps) simp
    moreover have "n div 10 < 10" using n by simp
    then have "decimal (n div 10) = [digit (n div 10)]"
      by (subst decimal.simps) simp
    ultimately show ?thesis using False by (simp add: printf_02d_def)
  qed
qed

lemma decimal_length: "10 \<le> n \<Longrightarrow> 2 \<le> length (decimal n)"
  by (subst decimal.simps) (simp add: decimal.simps [of "n div 10"])

lemma decimal_length3: "100 \<le> n \<Longrightarrow> 3 \<le> length (decimal n)"
proof -
  assume "100 \<le> n"
  then have "10 \<le> n div 10" by simp
  then have "2 \<le> length (decimal (n div 10))" by (rule decimal_length)
  moreover have "decimal n = decimal (n div 10) @ [digit (n mod 10)]"
    using \<open>100 \<le> n\<close> by (subst decimal.simps) simp
  ultimately show ?thesis by simp
qed


lemma GetTimeForFrame_from_100_minutes:
  assumes "360000 \<le> currFrame - first" and "currFrame - first < 2 ^ 31"
  shows "GetTimeForFrame first currFrame = Inl BufferOverflow"
proof -
  define e where "e = currFrame - first"
  have e: "360000 \<le> e" "e < 2147483648" using assms by (simp_all add: e_def)
  have sec: "e sdiv 60 = e div 60" using e by (simp add: signed_divide_int_def sgn_if)
  have sec0: "6000 \<le> e div 60" using e by simp
  have min: "(e div 60) sdiv 60 = e div 60 div 60"
    using sec0 by (simp add: signed_divide_int_def sgn_if)
  have m: "100 \<le> e div 60 div 60" using sec0 by simp
  then have "100 \<le> nat (e div 60 div 60)" by simp
  then have "3 \<le> length (decimal (nat (e div 60 div 60)))" by (rule decimal_length3)
  moreover have "printf_02d (e div 60 div 60) = decimal (nat (e div 60 div 60))"
    using m by (simp add: printf_02d_def)
  moreover have "2 \<le> length (printf_02d ((e div 60) smod 60))"
  proof -
    have r: "(e div 60) smod 60 = int (nat (e div 60 mod 60))"
      using sec0 by (simp add: signed_modulo_int_def sgn_if)
    have "nat (e div 60 mod 60) < 100" by simp
    from decimal_two_digits [OF this] show ?thesis by (simp add: r)
  qed
  ultimately have "6 \<le> length (printf_02d (e div 60 div 60) @ '':'' @ printf_02d ((e div 60) smod 60))"
    by simp
  then show ?thesis
    using e by (simp add: GetTimeForFrame_def Let_def e_def [symmetric] sec min)
qed

text \<open>
  C9 fails on the code from \<open>100\<close> minutes on. At \<open>360000\<close> frames after the first frame the
  minutes are \<open>100\<close>, \<^verbatim>\<open>%02d\<close> prints three digits, and the seven bytes of \<^verbatim>\<open>"100:00"\<close> with
  its terminating zero overrun \<^verbatim>\<open>char currTime[6]\<close>. Below \<open>100\<close> minutes the label is
  \<open>MM:SS\<close> (\<open>GetTimeForFrame_under_100_minutes\<close>).
\<close>

theorem GetTimeForFrame_overruns_at_100_minutes:
  "GetTimeForFrame first (first + 360000) = Inl BufferOverflow \<and>
   printf_02d 100 @ '':'' @ printf_02d 0 = ''100:00''"
  by (simp add: GetTimeForFrame_def Let_def signed_divide_int_def signed_modulo_int_def
      printf_02d_def decimal.simps digit_def)

subsection \<open>The seek bar\<close>











subsection \<open>The volume bar and the mute button\<close>

text \<open>
  C6. In every frame the volume bar publishes a volume change exactly when the bar is
  drawn (\<^verbatim>\<open>SkipItems\<close> is not set), held or hovered, the button is down and the value the
  pointer maps to differs from the stored volume; the new value is then stored and
  \<^verbatim>\<open>UpdateSoundStream\<close> called with it in this same frame. In every other frame the stored
  volume stays and nothing is published; in particular nothing is published in a frame
  with the button up, so the release commits nothing.
\<close>

theorem volume_published_when_changed_while_down:
  "snd (DrawSlippiPlaybackControls_volume SkipItems p s) =
     (if \<not> SkipItems \<and> (volume_isHeld s \<or> hovered p) \<and> isDown p \<and> pos_value p \<noteq> m_Volume s
      then [UpdateSoundStream (pos_value p)] else []) \<and>
   m_Volume (fst (DrawSlippiPlaybackControls_volume SkipItems p s)) =
     (if \<not> SkipItems \<and> (volume_isHeld s \<or> hovered p) \<and> isDown p \<and> pos_value p \<noteq> m_Volume s
      then pos_value p else m_Volume s) \<and>
   (\<not> SkipItems \<and> (volume_isHeld s \<or> hovered p) \<longrightarrow>
      (snd (DrawSlippiPlaybackControls_volume SkipItems p s) \<noteq> [] \<longleftrightarrow>
         isDown p \<and> pos_value p \<noteq> m_Volume s)) \<and>
   (\<not> isDown p \<longrightarrow> snd (DrawSlippiPlaybackControls_volume SkipItems p s) = [])"
  by (auto simp: DrawSlippiPlaybackControls_volume_def VolumeBar_def VolumeBarBehavior_def Let_def)

theorem volume_published_when_changed_while_down_witness:
  "DrawSlippiPlaybackControls_volume False \<lparr>isDown = True, hovered = True, pos_value = 80\<rparr>
      \<lparr>m_Volume = 50, prev = 0, volume_isHeld = True\<rparr> =
     (\<lparr>m_Volume = 80, prev = 0, volume_isHeld = True\<rparr>, [UpdateSoundStream 80]) \<and>
   DrawSlippiPlaybackControls_volume False \<lparr>isDown = True, hovered = True, pos_value = 80\<rparr>
      \<lparr>m_Volume = 80, prev = 0, volume_isHeld = True\<rparr> =
     (\<lparr>m_Volume = 80, prev = 0, volume_isHeld = True\<rparr>, []) \<and>
   DrawSlippiPlaybackControls_volume False \<lparr>isDown = False, hovered = True, pos_value = 90\<rparr>
      \<lparr>m_Volume = 80, prev = 0, volume_isHeld = True\<rparr> =
     (\<lparr>m_Volume = 80, prev = 0, volume_isHeld = False\<rparr>, [])"
  using
    volume_published_when_changed_while_down [where SkipItems = False
      and p = "\<lparr>isDown = True, hovered = True, pos_value = 80\<rparr>"
      and s = "\<lparr>m_Volume = 50, prev = 0, volume_isHeld = True\<rparr>"]
    volume_published_when_changed_while_down [where SkipItems = False
      and p = "\<lparr>isDown = True, hovered = True, pos_value = 80\<rparr>"
      and s = "\<lparr>m_Volume = 80, prev = 0, volume_isHeld = True\<rparr>"]
    volume_published_when_changed_while_down [where SkipItems = False
      and p = "\<lparr>isDown = False, hovered = True, pos_value = 90\<rparr>"
      and s = "\<lparr>m_Volume = 80, prev = 0, volume_isHeld = True\<rparr>"]
  by (simp add: DrawSlippiPlaybackControls_volume_def VolumeBar_def VolumeBarBehavior_def Let_def)

text \<open>
  C7. A click on the mute button at volume \<open>0\<close> restores the remembered volume \<open>prev\<close> when
  that is not \<open>0\<close>, and sets the volume to \<open>30\<close> when it is \<open>0\<close> (as it is before any
  volume was remembered); a click at another volume remembers it in \<open>prev\<close> and sets the
  volume to \<open>0\<close>. Each click calls \<^verbatim>\<open>UpdateSoundStream\<close> with the new volume.
\<close>

theorem mute_toggle:
  "(m_Volume s = 0 \<and> prev s \<noteq> 0 \<longrightarrow>
      DrawSlippiPlaybackControls_mute True s = (s\<lparr>m_Volume := prev s\<rparr>, [UpdateSoundStream (prev s)])) \<and>
   (m_Volume s = 0 \<and> prev s = 0 \<longrightarrow>
      DrawSlippiPlaybackControls_mute True s = (s\<lparr>m_Volume := 30\<rparr>, [UpdateSoundStream 30])) \<and>
   (m_Volume s \<noteq> 0 \<longrightarrow>
      DrawSlippiPlaybackControls_mute True s = (s\<lparr>prev := m_Volume s, m_Volume := 0\<rparr>, [UpdateSoundStream 0])) \<and>
   DrawSlippiPlaybackControls_mute False s = (s, [])"
  by (simp add: DrawSlippiPlaybackControls_mute_def Let_def)

theorem mute_toggle_witness:
  "DrawSlippiPlaybackControls_mute True \<lparr>m_Volume = 0, prev = 45, volume_isHeld = False\<rparr> =
     (\<lparr>m_Volume = 45, prev = 45, volume_isHeld = False\<rparr>, [UpdateSoundStream 45]) \<and>
   DrawSlippiPlaybackControls_mute True \<lparr>m_Volume = 0, prev = 0, volume_isHeld = False\<rparr> =
     (\<lparr>m_Volume = 30, prev = 0, volume_isHeld = False\<rparr>, [UpdateSoundStream 30]) \<and>
   DrawSlippiPlaybackControls_mute True \<lparr>m_Volume = 45, prev = 0, volume_isHeld = False\<rparr> =
     (\<lparr>m_Volume = 0, prev = 45, volume_isHeld = False\<rparr>, [UpdateSoundStream 0])"
  using
    mute_toggle [where s = "\<lparr>m_Volume = 0, prev = 45, volume_isHeld = False\<rparr>"]
    mute_toggle [where s = "\<lparr>m_Volume = 0, prev = 0, volume_isHeld = False\<rparr>"]
    mute_toggle [where s = "\<lparr>m_Volume = 45, prev = 0, volume_isHeld = False\<rparr>"]
  by simp

subsection \<open>Single precision\<close>

lemma quantum_from_eq:
  "0 < u \<Longrightarrow> j \<le> n \<Longrightarrow> a < u * 2 ^ j * 2 ^ 24 \<Longrightarrow> j = 0 \<or> u * 2 ^ j * 2 ^ 23 \<le> a \<Longrightarrow>
     quantum_from n u a = u * 2 ^ j"
proof (induction n arbitrary: u j)
  case 0
  then show ?case by simp
next
  case (Suc n)
  show ?case
  proof (cases j)
    case 0
    with Suc.prems show ?thesis by simp
  next
    case (Suc i)
    have p: "(1::rat) \<le> 2 ^ i" by simp
    have "u * 2 ^ 24 \<le> u * 2 ^ i * 2 ^ 24"
      using Suc.prems(1) p by (simp add: mult_le_cancel_left1)
    also have "\<dots> = u * 2 ^ j * 2 ^ 23" by (simp add: Suc)
    also have "\<dots> \<le> a" using Suc.prems(4) Suc by simp
    finally have far: "\<not> a < u * 2 ^ 24" by simp
    have "quantum_from n (2 * u) a = 2 * u * 2 ^ i"
    proof (rule Suc.IH)
      show "0 < 2 * u" using Suc.prems(1) by simp
      show "i \<le> n" using Suc.prems(2) Suc by simp
      show "a < 2 * u * 2 ^ i * 2 ^ 24" using Suc.prems(3) by (simp add: Suc mult.assoc mult.left_commute)
      show "i = 0 \<or> 2 * u * 2 ^ i * 2 ^ 23 \<le> a"
        using Suc.prems(4) by (simp add: Suc mult.assoc mult.left_commute)
    qed
    with far show ?thesis by (simp add: Suc)
  qed
qed

lemma quantum_from_pow: "\<exists>k\<le>n. quantum_from n u a = u * 2 ^ k"
proof (induction n arbitrary: u)
  case 0
  show ?case by simp
next
  case (Suc n)
  show ?case
  proof (cases "a < u * 2 ^ 24")
    case True
    then have "quantum_from (Suc n) u a = u * 2 ^ 0" by simp
    then show ?thesis by blast
  next
    case False
    from Suc.IH [of "2 * u"] obtain k where k: "k \<le> n" "quantum_from n (2 * u) a = 2 * u * 2 ^ k"
      by blast
    then have "quantum_from (Suc n) u a = u * 2 ^ Suc k" using False by simp
    with k(1) show ?thesis by (metis Suc_le_mono)
  qed
qed

lemma quantum_from_lower:
  "quantum_from n u a = u \<or> quantum_from n u a * 2 ^ 23 \<le> a"
proof (induction n arbitrary: u)
  case 0
  show ?case by simp
next
  case (Suc n)
  show ?case
  proof (cases "a < u * 2 ^ 24")
    case True
    then show ?thesis by simp
  next
    case False
    then have a: "2 * u * 2 ^ 23 \<le> a" by simp
    from Suc.IH [of "2 * u"] a False show ?thesis by auto
  qed
qed

lemma quantum_from_le:
  "0 < u \<Longrightarrow> j \<le> n \<Longrightarrow> a < u * 2 ^ j * 2 ^ 24 \<Longrightarrow> quantum_from n u a \<le> u * 2 ^ j"
proof (induction n arbitrary: u j)
  case 0
  then show ?case by simp
next
  case (Suc n)
  show ?case
  proof (cases "a < u * 2 ^ 24")
    case True
    have "(1::rat) \<le> 2 ^ j" by simp
    then have "u \<le> u * 2 ^ j" using Suc.prems(1) by (simp add: mult_le_cancel_left1)
    with True show ?thesis by simp
  next
    case False
    then obtain i where j: "j = Suc i"
      using Suc.prems(3) by (cases j) auto
    have "quantum_from n (2 * u) a \<le> 2 * u * 2 ^ i"
    proof (rule Suc.IH)
      show "0 < 2 * u" using Suc.prems(1) by simp
      show "i \<le> n" using Suc.prems(2) j by simp
      show "a < 2 * u * 2 ^ i * 2 ^ 24" using Suc.prems(3) by (simp add: j mult.assoc mult.left_commute)
    qed
    with False show ?thesis by (simp add: j mult.assoc mult.left_commute)
  qed
qed

lemma round_even_near: "\<bar>of_int (round_even r) - r\<bar> \<le> 1 / 2"
proof -
  define f where "f = \<lfloor>r\<rfloor>"
  have "of_int f \<le> r" "r < of_int f + 1" unfolding f_def by linarith+
  then show ?thesis
    unfolding round_even_def Let_def f_def [symmetric] by (auto simp: abs_if)
qed

lemma round_even_of_int: "round_even (of_int n) = n"
  by (simp add: round_even_def Let_def)

lemma round_even_ge: "of_int n \<le> r \<Longrightarrow> n \<le> round_even r"
proof -
  assume "of_int n \<le> r"
  then have "n \<le> \<lfloor>r\<rfloor>" by (simp add: le_floor_iff)
  then show ?thesis by (auto simp: round_even_def Let_def)
qed

lemma round_even_le: "r \<le> of_int n \<Longrightarrow> round_even r \<le> n"
proof (cases "\<lfloor>r\<rfloor> = n")
  case True
  assume "r \<le> of_int n"
  moreover have "of_int \<lfloor>r\<rfloor> \<le> r" by linarith
  ultimately have "r = of_int n" using True by simp
  then show ?thesis by (simp add: round_even_of_int)
next
  case False
  assume "r \<le> of_int n"
  then have "\<lfloor>r\<rfloor> \<le> n" by (simp add: floor_le_iff)
  with False have "\<lfloor>r\<rfloor> + 1 \<le> n" by simp
  then show ?thesis by (auto simp: round_even_def Let_def)
qed

lemma round_even_eq:
  assumes "\<bar>r - of_int n\<bar> < 1 / 2"
  shows "round_even r = n"
proof -
  define f where "f = \<lfloor>r\<rfloor>"
  have f: "of_int f \<le> r" "r < of_int f + 1" unfolding f_def by linarith+
  have r: "r < of_int n + 1 / 2" "of_int n - 1 / 2 < r"
    using assms [unfolded abs_less_iff] by simp_all
  have "(of_int f :: rat) < of_int (n + 1)" using f(1) r(1) by simp
  then have up: "f < n + 1" by (simp only: of_int_less_iff)
  have "(of_int (n - 1) :: rat) < of_int (f + 1)" using f(2) r(2) by simp
  then have low: "n - 1 < f + 1" by (simp only: of_int_less_iff)
  from up low have "f = n \<or> f = n - 1" by auto
  then show ?thesis
  proof
    assume "f = n"
    then show ?thesis using r unfolding round_even_def Let_def f_def [symmetric] by simp
  next
    assume "f = n - 1"
    then show ?thesis using r unfolding round_even_def Let_def f_def [symmetric] by simp
  qed
qed

lemma min_quantum_pos: "0 < min_quantum"
  by (simp add: min_quantum_def)

lemma quantum_pos: "0 < quantum x"
proof -
  obtain k where "quantum x = min_quantum * 2 ^ k"
    using quantum_from_pow [of 253 min_quantum "\<bar>x\<bar>"] by (auto simp: quantum_def)
  then show ?thesis using min_quantum_pos by simp
qed

lemma f32_near: "\<bar>f32 x - x\<bar> \<le> quantum x / 2"
proof -
  let ?u = "quantum x"
  have u: "0 < ?u" by (rule quantum_pos)
  have "f32 x - x = ?u * (of_int (round_even (x / ?u)) - x / ?u)"
    using u by (simp add: f32_def Let_def algebra_simps)
  then have "\<bar>f32 x - x\<bar> = ?u * \<bar>of_int (round_even (x / ?u)) - x / ?u\<bar>"
    using u by (simp add: abs_mult)
  also have "\<dots> \<le> ?u * (1 / 2)"
    using u round_even_near [of "x / ?u"] by (intro mult_left_mono) simp_all
  finally show ?thesis by simp
qed

lemma f32_nonneg: "0 \<le> x \<Longrightarrow> 0 \<le> f32 x"
proof -
  assume "0 \<le> x"
  then have "of_int 0 \<le> x / quantum x" using quantum_pos [of x] by simp
  then have "0 \<le> round_even (x / quantum x)" by (rule round_even_ge)
  then show ?thesis using quantum_pos [of x] by (simp add: f32_def Let_def)
qed

lemma f32_nonpos: "x \<le> 0 \<Longrightarrow> f32 x \<le> 0"
proof -
  assume "x \<le> 0"
  then have "x / quantum x \<le> of_int 0" using quantum_pos [of x] by (simp add: divide_le_0_iff)
  then have "round_even (x / quantum x) \<le> 0" by (rule round_even_le)
  then show ?thesis using quantum_pos [of x] by (simp add: f32_def Let_def mult_le_0_iff)
qed

text \<open>The quantum of a number below \<open>min_quantum * 2 ^ j * 2 ^ 24\<close> divides \<open>min_quantum * 2 ^ j\<close>.\<close>

lemma quantum_divides:
  assumes "j \<le> 253" and "\<bar>x\<bar> < min_quantum * 2 ^ j * 2 ^ 24"
  shows "\<exists>i. min_quantum * 2 ^ j = quantum x * 2 ^ i"
proof -
  obtain k where k: "k \<le> 253" "quantum x = min_quantum * 2 ^ k"
    using quantum_from_pow [of 253 min_quantum "\<bar>x\<bar>"] by (auto simp: quantum_def)
  have "quantum x \<le> min_quantum * 2 ^ j"
    unfolding quantum_def using assms min_quantum_pos by (intro quantum_from_le) simp_all
  then have "(2::rat) ^ k \<le> 2 ^ j" using min_quantum_pos by (simp add: k(2))
  then have kj: "k \<le> j" by simp
  then have "(2::rat) ^ j = 2 ^ k * 2 ^ (j - k)" by (simp flip: power_add)
  then have "min_quantum * 2 ^ j = quantum x * 2 ^ (j - k)" by (simp add: k(2))
  then show ?thesis by blast
qed

lemma f32_exact:
  assumes "j \<le> 253" and "x = of_int m * (min_quantum * 2 ^ j)" and "\<bar>x\<bar> < min_quantum * 2 ^ j * 2 ^ 24"
  shows "f32 x = x"
proof -
  obtain i where i: "min_quantum * 2 ^ j = quantum x * 2 ^ i"
    using quantum_divides [OF assms(1,3)] by blast
  have u: "0 < quantum x" by (rule quantum_pos)
  have "x = of_int (m * 2 ^ i) * quantum x"
    by (subst assms(2)) (simp add: i)
  then have "x / quantum x = of_int (m * 2 ^ i)"
    using u by (simp add: divide_eq_eq)
  then have "round_even (x / quantum x) = m * 2 ^ i"
    by (simp only: round_even_of_int)
  then have "f32 x = quantum x * of_int (m * 2 ^ i)" by (simp add: f32_def Let_def)
  also have "\<dots> = x" by (subst (2) assms(2)) (simp add: i)
  finally show ?thesis .
qed

lemma f32_ge:
  assumes "j \<le> 253" and "c = of_int m * (min_quantum * 2 ^ j)" and "c \<le> x"
    and "0 \<le> c" and "2 * c \<le> min_quantum * 2 ^ j * 2 ^ 24"
  shows "c \<le> f32 x"
proof (cases "\<bar>x\<bar> < min_quantum * 2 ^ j * 2 ^ 24")
  case True
  obtain i where i: "min_quantum * 2 ^ j = quantum x * 2 ^ i"
    using quantum_divides [OF assms(1) True] by blast
  have u: "0 < quantum x" by (rule quantum_pos)
  have c: "c = of_int (m * 2 ^ i) * quantum x" by (subst assms(2)) (simp add: i)
  then have "of_int (m * 2 ^ i) = c / quantum x" using u by (simp add: divide_eq_eq)
  also have "\<dots> \<le> x / quantum x" using u assms(3) by (simp add: divide_le_cancel)
  finally have "m * 2 ^ i \<le> round_even (x / quantum x)" by (rule round_even_ge)
  then have "(of_int (m * 2 ^ i) :: rat) \<le> of_int (round_even (x / quantum x))" by (simp only: of_int_le_iff)
  then have "of_int (m * 2 ^ i) * quantum x \<le> f32 x"
    using u by (simp add: f32_def Let_def mult.commute)
  then show ?thesis by (simp only: c [symmetric])
next
  case False
  have x: "0 \<le> x" using assms(3,4) by simp
  with False have big: "min_quantum * 2 ^ j * 2 ^ 24 \<le> x" by simp
  have "quantum x = min_quantum \<or> quantum x * 2 ^ 23 \<le> \<bar>x\<bar>"
    unfolding quantum_def by (rule quantum_from_lower)
  moreover have "min_quantum * 2 ^ 23 \<le> min_quantum * 2 ^ j * 2 ^ 24"
  proof -
    have "(1::rat) \<le> 2 ^ j" by simp
    then have "(1::rat) * 2 ^ 23 \<le> 2 ^ j * 2 ^ 24" by (intro mult_mono) simp_all
    then have "min_quantum * (1 * 2 ^ 23) \<le> min_quantum * (2 ^ j * 2 ^ 24)"
      using min_quantum_pos by (intro mult_left_mono) simp_all
    then show ?thesis by (simp add: mult.assoc)
  qed
  ultimately have q: "quantum x * 2 ^ 23 \<le> x" using big x by auto
  have "x - f32 x \<le> \<bar>f32 x - x\<bar>" by simp
  also note f32_near [of x]
  finally have "x - f32 x \<le> quantum x / 2" .
  moreover have "quantum x / 2 \<le> x / 2" using q quantum_pos [of x] by simp
  ultimately have "x / 2 \<le> f32 x" by simp
  moreover have "c \<le> x / 2" using assms(5) big by simp
  ultimately show ?thesis by simp
qed

lemma unit_quantum: "min_quantum * 2 ^ 149 = 1" "min_quantum * 2 ^ 125 * 2 ^ 24 = 1"
  by (simp_all add: min_quantum_def)

lemma f32_near_unit: "\<bar>x\<bar> \<le> 1 \<Longrightarrow> \<bar>f32 x - x\<bar> \<le> 1 / 2 ^ 25"
proof (cases "\<bar>x\<bar> < 1")
  case True
  have "quantum x \<le> min_quantum * 2 ^ 125"
    unfolding quantum_def
  proof (rule quantum_from_le)
    show "0 < min_quantum" by (rule min_quantum_pos)
    show "125 \<le> (253::nat)" by simp
    show "\<bar>x\<bar> < min_quantum * 2 ^ 125 * 2 ^ 24" using True by (simp only: unit_quantum)
  qed
  also have "\<dots> = 1 / 2 ^ 24" by (simp add: min_quantum_def)
  finally have "quantum x / 2 \<le> 1 / 2 ^ 25" by simp
  with f32_near [of x] show ?thesis by simp
next
  case False
  assume "\<bar>x\<bar> \<le> 1"
  with False have "\<bar>x\<bar> = 1" by simp
  then have "x = of_int (if x < 0 then - 1 else 1) * (min_quantum * 2 ^ 149)"
    by (simp only: unit_quantum) (auto simp: abs_if split: if_splits)
  then have "f32 x = x"
  proof (rule f32_exact [rotated])
    show "149 \<le> (253::nat)" by simp
    show "\<bar>x\<bar> < min_quantum * 2 ^ 149 * 2 ^ 24" using \<open>\<bar>x\<bar> = 1\<close> by (simp only: unit_quantum; simp)
  qed
  then show ?thesis by simp
qed

lemma quantum_eq:
  "j \<le> 253 \<Longrightarrow> \<bar>x\<bar> < min_quantum * 2 ^ j * 2 ^ 24 \<Longrightarrow>
   j = 0 \<or> min_quantum * 2 ^ j * 2 ^ 23 \<le> \<bar>x\<bar> \<Longrightarrow> quantum x = min_quantum * 2 ^ j"
  unfolding quantum_def using min_quantum_pos by (intro quantum_from_eq) simp_all

lemma f32_0: "f32 0 = 0"
  by (simp add: f32_def Let_def round_even_def)

lemma f32_1: "f32 1 = 1"
proof (rule f32_exact [where j = 149 and m = 1])
  show "(1::rat) = of_int 1 * (min_quantum * 2 ^ 149)" by (simp only: unit_quantum; simp)
  show "\<bar>1::rat\<bar> < min_quantum * 2 ^ 149 * 2 ^ 24" by (simp only: unit_quantum; simp)
qed simp

lemma f32_of_int: "\<bar>n\<bar> < 2 ^ 24 \<Longrightarrow> f32 (of_int n) = of_int n"
proof (rule f32_exact [where j = 149 and m = n])
  assume n: "\<bar>n\<bar> < 2 ^ 24"
  show "(of_int n :: rat) = of_int n * (min_quantum * 2 ^ 149)" by (simp only: unit_quantum; simp)
  have "\<bar>of_int n :: rat\<bar> = of_int \<bar>n\<bar>" by simp
  also have "\<dots> < of_int (2 ^ 24)" using n by (simp only: of_int_less_iff)
  finally show "\<bar>of_int n :: rat\<bar> < min_quantum * 2 ^ 149 * 2 ^ 24" by (simp only: unit_quantum; simp)
qed simp

text \<open>\<^verbatim>\<open>0.0001f\<close> is \<open>13743895 / 2\<^sup>3\<^sup>7\<close>, a little below \<open>1 / 10000\<close>.\<close>

lemma f32_tenthousandth: "f32 (1 / 10000) = 13743895 / 2 ^ 37"
proof -
  have "quantum (1 / 10000) = min_quantum * 2 ^ 112"
    by (rule quantum_eq) (simp_all add: min_quantum_def)
  also have "\<dots> = 1 / 137438953472" by (simp add: min_quantum_def)
  finally have q: "quantum (1 / 10000) = 1 / 137438953472" .
  have "round_even (1 / 10000 / (1 / 137438953472)) = 13743895"
    by (rule round_even_eq) simp
  then show ?thesis unfolding f32_def Let_def q by simp
qed

lemma f32_eval:
  assumes "j \<le> 253" and "\<bar>x\<bar> < min_quantum * 2 ^ j * 2 ^ 24"
    and "j = 0 \<or> min_quantum * 2 ^ j * 2 ^ 23 \<le> \<bar>x\<bar>"
    and "\<bar>x / (min_quantum * 2 ^ j) - of_int n\<bar> < 1 / 2"
  shows "f32 x = min_quantum * 2 ^ j * of_int n"
proof -
  have q: "quantum x = min_quantum * 2 ^ j" using assms(1-3) by (rule quantum_eq)
  have "round_even (x / (min_quantum * 2 ^ j)) = n" using assms(4) by (rule round_even_eq)
  then show ?thesis unfolding f32_def Let_def q by simp
qed

subsection \<open>The idle fade\<close>

lemma idle_still:
  "mousePos = prev_mouse s \<Longrightarrow> snd (DrawSlippiPlaybackControls_idle currTime mousePos s) = s"
  by (cases s) (simp add: DrawSlippiPlaybackControls_idle_def Let_def)

lemma idle_frames_still:
  "\<forall>f\<in>set fs. snd f = prev_mouse s \<Longrightarrow> idle_frames fs s = s"
  by (induction fs) (simp_all add: idle_still)

lemma alpha_fresh: "DrawSlippiPlaybackControls_alpha False 0 0 = 1"
  by (simp add: DrawSlippiPlaybackControls_alpha_def f32_0 f32_1 f32_tenthousandth)

lemma alpha_faded:
  assumes "1000 \<le> diff"
  shows "DrawSlippiPlaybackControls_alpha False 0 diff = 13743895 / 2 ^ 37"
proof -
  have eight: "min_quantum * 2 ^ 152 = 8" by (simp add: min_quantum_def)
  have "(1000::rat) \<le> f32 (of_int diff)"
  proof (rule f32_ge [where j = 152 and m = 125])
    show "(1000::rat) = of_int 125 * (min_quantum * 2 ^ 152)" by (simp only: eight; simp)
    show "(1000::rat) \<le> of_int diff" using assms by simp
    show "2 * (1000::rat) \<le> min_quantum * 2 ^ 152 * 2 ^ 24" by (simp only: eight; simp)
  qed simp_all
  then have "(1::rat) \<le> f32 (of_int diff) / 1000" by simp
  have "(1::rat) \<le> f32 (f32 (of_int diff) / 1000)"
  proof (rule f32_ge [where j = 149 and m = 1])
    show "(1::rat) = of_int 1 * (min_quantum * 2 ^ 149)" by (simp only: unit_quantum; simp)
    show "(1::rat) \<le> f32 (of_int diff) / 1000" by fact
    show "2 * (1::rat) \<le> min_quantum * 2 ^ 149 * 2 ^ 24" by (simp only: unit_quantum; simp)
  qed simp_all
  then have "1 - f32 (f32 (of_int diff) / 1000) \<le> 0" by simp
  then have "f32 (1 - f32 (f32 (of_int diff) / 1000)) \<le> 0" by (rule f32_nonpos)
  then show ?thesis
    by (simp add: DrawSlippiPlaybackControls_alpha_def f32_tenthousandth max_def)
qed

lemma alpha_fading:
  assumes "0 \<le> diff" and "diff < 1000"
  shows "\<bar>DrawSlippiPlaybackControls_alpha False 0 diff - (1 - of_int diff / 1000)\<bar> \<le> 1 / 2 ^ 24"
proof -
  define x :: rat where "x = of_int diff / 1000"
  define q where "q = f32 x"
  define r where "r = f32 (1 - q)"
  have x: "0 \<le> x" "x < 1" using assms by (simp_all add: x_def)
  have "\<bar>diff\<bar> < 2 ^ 24" using assms by simp
  then have conv: "f32 (of_int diff) = of_int diff" by (rule f32_of_int)
  have q: "\<bar>q - x\<bar> \<le> 1 / 2 ^ 25" unfolding q_def using x by (intro f32_near_unit) simp
  have qu: "q - x \<le> 1 / 2 ^ 25" by (rule abs_le_D1 [OF q])
  have ql: "x - q \<le> 1 / 2 ^ 25" using abs_le_D2 [OF q] by simp
  have q0: "0 \<le> q" unfolding q_def using x by (intro f32_nonneg) simp
  have "\<bar>1 - q\<bar> \<le> 1" by (rule abs_leI) (use qu q0 x in simp_all)
  then have r: "\<bar>r - (1 - q)\<bar> \<le> 1 / 2 ^ 25" unfolding r_def by (rule f32_near_unit)
  have ru: "r - (1 - q) \<le> 1 / 2 ^ 25" by (rule abs_le_D1 [OF r])
  have rl: "(1 - q) - r \<le> 1 / 2 ^ 25" using abs_le_D2 [OF r] by simp
  have near: "\<bar>r - (1 - x)\<bar> \<le> 1 / 2 ^ 24"
    by (rule abs_leI) (use qu ql ru rl in simp_all)
  have low: "1 / 1000 \<le> 1 - x"
  proof -
    have "diff \<le> 999" using assms by simp
    then have "(of_int diff :: rat) \<le> of_int 999" by (simp only: of_int_le_iff)
    then show ?thesis by (simp add: x_def)
  qed
  then have "13743895 / 2 ^ 37 \<le> r" using abs_le_D2 [OF near] by simp
  then have "DrawSlippiPlaybackControls_alpha False 0 diff = r"
    by (simp add: DrawSlippiPlaybackControls_alpha_def f32_tenthousandth conv r_def q_def x_def max_def)
  then show ?thesis using near by (simp add: x_def)
qed

lemma alpha_after_one_millisecond:
  "DrawSlippiPlaybackControls_alpha False 0 1 = 16760439 / 2 ^ 24"
proof -
  have "f32 (of_int 1) = of_int 1" by (rule f32_of_int) simp
  then have one: "f32 1 = 1" by simp
  have "f32 (1 / 1000) = min_quantum * 2 ^ 116 * of_int 8589935"
    by (rule f32_eval) (simp_all add: min_quantum_def)
  then have q: "f32 (1 / 1000) = 8589935 / 8589934592" by (simp add: min_quantum_def)
  have "f32 (8581344657 / 8589934592) = min_quantum * 2 ^ 125 * of_int 16760439"
    by (rule f32_eval) (simp_all add: min_quantum_def)
  then have r: "f32 (8581344657 / 8589934592) = 16760439 / 16777216" by (simp add: min_quantum_def)
  show ?thesis
    by (simp add: DrawSlippiPlaybackControls_alpha_def one q r f32_tenthousandth)
qed

lemma alpha_near_formula:
  assumes "0 \<le> diff"
  shows "\<bar>DrawSlippiPlaybackControls_alpha False 0 diff - max (1 / 10000) (1 - of_int diff / 1000)\<bar>
           \<le> 1 / 2 ^ 24"
proof (cases "diff < 1000")
  case True
  then have "diff \<le> 999" by simp
  then have "(of_int diff :: rat) \<le> of_int 999" by (simp only: of_int_le_iff)
  then have "max (1 / 10000) (1 - of_int diff / 1000 :: rat) = 1 - of_int diff / 1000" by simp
  with alpha_fading [OF assms True] show ?thesis by simp
next
  case False
  then have big: "1000 \<le> diff" by simp
  then have "(of_int 1000 :: rat) \<le> of_int diff" by (simp only: of_int_le_iff)
  then have "max (1 / 10000) (1 - of_int diff / 1000 :: rat) = 1 / 10000" by simp
  with alpha_faded [OF big] show ?thesis by simp
qed

text \<open>
  C8, as the code has it. Let \<open>idleMillis\<close> be \<^verbatim>\<open>s32 diff = currTime - idle_tick\<close>, the signed
  32-bit difference of the clock and the idle tick after this frame's update of the tick.
  The opacity of the control bar is \<open>1\<close> when the help panel is open or a widget is
  hovered; otherwise it is \<open>1\<close> for \<open>idleMillis < 1000\<close>, and from \<open>1000\<close> on it is the
  single-precision value of \<^verbatim>\<open>std::max(0.0001f, 1.0f - ((idleMillis - 1000) / 1000.0f))\<close>,
  which is within \<open>2\<^sup>-\<^sup>2\<^sup>4\<close> of \<open>max 0.0001 (1 - (idleMillis - 1000) / 1000)\<close> and, from \<open>2000\<close>
  on, is \<^verbatim>\<open>0.0001f\<close>, that is \<open>13743895 / 2\<^sup>3\<^sup>7\<close>. After the frame the tick is the clock
  reading of the frame when the pointer has moved since the last frame and is unchanged
  otherwise, and the remembered pointer position is that of the frame; so after any run
  of frames without pointer movement, a frame \<open>2500\<close> milliseconds after the tick, with no
  hover and the help panel closed, has the opacity \<^verbatim>\<open>0.0001f\<close>.
\<close>

theorem control_bar_opacity:
  assumes "idleMillis =
      sint (currTime - idle_tick (snd (DrawSlippiPlaybackControls_idle currTime mousePos s)))"
    and "opacity = DrawSlippiPlaybackControls_alpha showHelp hoveredID
      (fst (DrawSlippiPlaybackControls_idle currTime mousePos s))"
  shows
    "(showHelp \<or> hoveredID \<noteq> 0 \<longrightarrow> opacity = 1) \<and>
     (\<not> showHelp \<and> hoveredID = 0 \<and> idleMillis < 1000 \<longrightarrow> opacity = 1) \<and>
     (\<not> showHelp \<and> hoveredID = 0 \<and> 1000 \<le> idleMillis \<longrightarrow>
        opacity = max (f32 (1 / 10000)) (f32 (1 - f32 (f32 (of_int (idleMillis - 1000)) / 1000))) \<and>
        \<bar>opacity - max (1 / 10000) (1 - (of_int idleMillis - 1000) / 1000)\<bar> \<le> 1 / 2 ^ 24) \<and>
     (\<not> showHelp \<and> hoveredID = 0 \<and> 2000 \<le> idleMillis \<longrightarrow> opacity = 13743895 / 2 ^ 37) \<and>
     snd (DrawSlippiPlaybackControls_idle currTime mousePos s) =
       \<lparr>idle_tick = (if mousePos = prev_mouse s then idle_tick s else currTime),
        prev_mouse = mousePos\<rparr> \<and>
     ((\<forall>f\<in>set fs. snd f = prev_mouse s) \<and> mousePos = prev_mouse s \<and>
        currTime = idle_tick s + 2500 \<and> \<not> showHelp \<and> hoveredID = 0 \<longrightarrow>
        DrawSlippiPlaybackControls_alpha showHelp hoveredID
          (fst (DrawSlippiPlaybackControls_idle currTime mousePos (idle_frames fs s))) =
          13743895 / 2 ^ 37)"
proof (intro conjI impI)
  show "snd (DrawSlippiPlaybackControls_idle currTime mousePos s) =
       \<lparr>idle_tick = (if mousePos = prev_mouse s then idle_tick s else currTime),
        prev_mouse = mousePos\<rparr>"
    by (auto simp: DrawSlippiPlaybackControls_idle_def Let_def prod_eq_iff)
next
  assume "showHelp \<or> hoveredID \<noteq> 0"
  then show "opacity = 1" by (auto simp: assms(2) DrawSlippiPlaybackControls_alpha_def)
next
  assume a: "\<not> showHelp \<and> hoveredID = 0 \<and> idleMillis < 1000"
  then have "fst (DrawSlippiPlaybackControls_idle currTime mousePos s) = 0"
    by (simp add: assms(1) DrawSlippiPlaybackControls_idle_def Let_def)
  with a show "opacity = 1" by (simp add: assms(2) alpha_fresh)
next
  assume a: "\<not> showHelp \<and> hoveredID = 0 \<and> 1000 \<le> idleMillis"
  then have d: "fst (DrawSlippiPlaybackControls_idle currTime mousePos s) = idleMillis - 1000"
    by (simp add: assms(1) DrawSlippiPlaybackControls_idle_def Let_def)
  with a show "opacity =
      max (f32 (1 / 10000)) (f32 (1 - f32 (f32 (of_int (idleMillis - 1000)) / 1000)))"
    by (simp add: assms(2) DrawSlippiPlaybackControls_alpha_def)
  have "0 \<le> idleMillis - 1000" using a by simp
  from alpha_near_formula [OF this] a d
  show "\<bar>opacity - max (1 / 10000) (1 - (of_int idleMillis - 1000) / 1000)\<bar> \<le> 1 / 2 ^ 24"
    by (simp add: assms(2))
next
  assume a: "\<not> showHelp \<and> hoveredID = 0 \<and> 2000 \<le> idleMillis"
  then have d: "fst (DrawSlippiPlaybackControls_idle currTime mousePos s) = idleMillis - 1000"
    by (simp add: assms(1) DrawSlippiPlaybackControls_idle_def Let_def)
  have "1000 \<le> idleMillis - 1000" using a by simp
  from alpha_faded [OF this] a d show "opacity = 13743895 / 2 ^ 37"
    by (simp add: assms(2))
next
  assume a: "(\<forall>f\<in>set fs. snd f = prev_mouse s) \<and> mousePos = prev_mouse s \<and>
      currTime = idle_tick s + 2500 \<and> \<not> showHelp \<and> hoveredID = 0"
  then have "idle_frames fs s = s" by (simp add: idle_frames_still)
  moreover have "fst (DrawSlippiPlaybackControls_idle (idle_tick s + 2500) (prev_mouse s) s) = 1500"
    by (simp add: DrawSlippiPlaybackControls_idle_def Let_def)
  moreover have "DrawSlippiPlaybackControls_alpha False 0 1500 = 13743895 / 2 ^ 37"
    by (rule alpha_faded) simp
  ultimately show "DrawSlippiPlaybackControls_alpha showHelp hoveredID
        (fst (DrawSlippiPlaybackControls_idle currTime mousePos (idle_frames fs s))) =
        13743895 / 2 ^ 37"
    using a by simp
qed

theorem control_bar_opacity_witness:
  "DrawSlippiPlaybackControls_alpha False 0
     (fst (DrawSlippiPlaybackControls_idle 12500 (3, 4)
        (idle_frames [(10500, 3, 4), (11500, 3, 4)] \<lparr>idle_tick = 10000, prev_mouse = (3, 4)\<rparr>))) =
     13743895 / 2 ^ 37 \<and>
   \<bar>DrawSlippiPlaybackControls_alpha False 0
     (fst (DrawSlippiPlaybackControls_idle 11500 (3, 4) \<lparr>idle_tick = 10000, prev_mouse = (3, 4)\<rparr>)) -
     1 / 2\<bar> \<le> 1 / 2 ^ 24 \<and>
   DrawSlippiPlaybackControls_alpha False 0
     (fst (DrawSlippiPlaybackControls_idle 10999 (3, 4) \<lparr>idle_tick = 10000, prev_mouse = (3, 4)\<rparr>)) = 1 \<and>
   DrawSlippiPlaybackControls_alpha False 7
     (fst (DrawSlippiPlaybackControls_idle 12500 (3, 4) \<lparr>idle_tick = 10000, prev_mouse = (3, 4)\<rparr>)) = 1 \<and>
   snd (DrawSlippiPlaybackControls_idle 12500 (5, 4) \<lparr>idle_tick = 10000, prev_mouse = (3, 4)\<rparr>) =
     \<lparr>idle_tick = 12500, prev_mouse = (5, 4)\<rparr>"
  using
    control_bar_opacity [OF refl refl, where showHelp = False and hoveredID = 0 and currTime = 12500
      and mousePos = "(3, 4)" and s = "\<lparr>idle_tick = 10000, prev_mouse = (3, 4)\<rparr>"
      and fs = "[(10500, 3, 4), (11500, 3, 4)]"]
    control_bar_opacity [OF refl refl, where showHelp = False and hoveredID = 0 and currTime = 11500
      and mousePos = "(3, 4)" and s = "\<lparr>idle_tick = 10000, prev_mouse = (3, 4)\<rparr>" and fs = "[]"]
    control_bar_opacity [OF refl refl, where showHelp = False and hoveredID = 0 and currTime = 10999
      and mousePos = "(3, 4)" and s = "\<lparr>idle_tick = 10000, prev_mouse = (3, 4)\<rparr>" and fs = "[]"]
    control_bar_opacity [OF refl refl, where showHelp = False and hoveredID = 7 and currTime = 12500
      and mousePos = "(3, 4)" and s = "\<lparr>idle_tick = 10000, prev_mouse = (3, 4)\<rparr>" and fs = "[]"]
    control_bar_opacity [OF refl refl, where showHelp = False and hoveredID = 0 and currTime = 12500
      and mousePos = "(5, 4)" and s = "\<lparr>idle_tick = 10000, prev_mouse = (3, 4)\<rparr>" and fs = "[]"]
  by (auto simp: DrawSlippiPlaybackControls_idle_def Let_def)

text \<open>
  The claim C8 with the exact values fails: \<open>2500\<close> milliseconds after the tick the opacity
  is \<^verbatim>\<open>0.0001f\<close>, which is \<open>13743895 / 2\<^sup>3\<^sup>7\<close> and not \<open>0.0001\<close>; and \<open>1001\<close> milliseconds after
  the tick it is \<open>16760439 / 2\<^sup>2\<^sup>4\<close> and not \<open>0.999\<close>.
\<close>

theorem control_bar_opacity_is_rounded:
  "DrawSlippiPlaybackControls_alpha False 0
     (fst (DrawSlippiPlaybackControls_idle 12500 (3, 4) \<lparr>idle_tick = 10000, prev_mouse = (3, 4)\<rparr>)) \<noteq>
     max (1 / 10000) (1 - (2500 - 1000) / 1000) \<and>
   DrawSlippiPlaybackControls_alpha False 0
     (fst (DrawSlippiPlaybackControls_idle 11001 (3, 4) \<lparr>idle_tick = 10000, prev_mouse = (3, 4)\<rparr>)) \<noteq>
     max (1 / 10000) (1 - (1001 - 1000) / 1000)"
proof -
  have "DrawSlippiPlaybackControls_alpha False 0 1500 = 13743895 / 2 ^ 37"
    by (rule alpha_faded) simp
  then show ?thesis
    by (simp add: DrawSlippiPlaybackControls_idle_def Let_def alpha_after_one_millisecond)
qed

end
